theory Spec2Isabelle
  imports Complex_Main
begin

section \<open>The multimodal solver: data model\<close>

text \<open>
  This theory embeds \<^verbatim>\<open>MultimodalSolver.sample\<close> of
  \<^verbatim>\<open>src/flow_matching/solver/multimodal_solver.py\<close>.

  Conventions of the embedding.
  \<^item> Floating-point arithmetic is a parameter: a record \<open>arith\<close> of the operations on a type
    \<open>'f\<close> of floating-point values. The operations named \<open>py_...\<close> are those of Python's
    \<^verbatim>\<open>float\<close> (binary64), the operations named \<open>t_...\<close> those of a float32 tensor, and
    \<open>to_float32\<close> is the conversion that \<^verbatim>\<open>torch.tensor\<close> applies to a list of Python
    floats. A theorem stated for every \<open>arith\<close> holds whatever the operations round to, and
    whatever they do with infinities and NaN. Two instances are given: \<open>exact\<close>, the real
    numbers without rounding, and \<open>ieee\<close>, IEEE 754 with rounding to nearest, ties to even.
  \<^item> A state tensor has rank 1, shape \<open>[B]\<close>: one coordinate per batch element. A
    continuous state is \<open>Float xs\<close>, a discrete state is \<open>Long xs\<close> (class indices). The
    model's output for a continuous modality is \<open>Float vs\<close> (shape \<open>[B]\<close>), for a discrete
    modality \<open>Float2 V rows\<close> (shape \<open>[B, V]\<close>, the logits). Float tensors are float32,
    the time grid included. Other combinations of dtypes and shapes, among them every use
    of broadcasting between unequal sizes, end in \<open>Unmodelled\<close>: the theory says nothing
    about them.
  \<^item> Every other constructor of \<open>error\<close> is the Python exception of that name.
  \<^item> Tensors are objects: the heap is a list of tensors, an address is an index into it,
    allocation appends. \<^verbatim>\<open>clone\<close> and every arithmetic result allocate; the masked
    assignment \<^verbatim>\<open>states[idx][mask_jump] = ...\<close> overwrites a cell.
  \<^item> The process-wide random source is an explicit generator state \<open>'g\<close> with its two
    drawing primitives (record \<open>rng_ops\<close>), both taken as total.
  \<^item> The model is a function of the values of the states and of the time; all modalities
    receive the same time, \<^verbatim>\<open>t_discretization[i]\<close> repeated \<open>B\<close> times, which is passed
    as one number. \<^verbatim>\<open>model_extras\<close> are part of that function.
  \<^item> \<^verbatim>\<open>dtype_categorical\<close> only sets the precision of the probabilities given to
    the sampler; the sampler is a parameter.
\<close>

datatype error =
    ValueError | NotImplementedError | AssertionError | IndexError | ZeroDivisionError
  | OverflowError | ImportError | UnboundLocalError | TypeError | RuntimeError | Unmodelled

text \<open>
  \<open>py_div\<close> is the division of two Python floats with a divisor that is not zero,
  \<open>py_ceil\<close> is \<^verbatim>\<open>math.ceil\<close>, which raises for a value that is not finite. \<open>t_div\<close>
  may decline: an instance that cannot represent the quotient returns \<open>Unmodelled\<close> (the
  exact instance does so for a zero divisor, where a tensor holds inf or NaN); the
  division of float32 tensors itself never raises. \<open>t_long\<close> is \<^verbatim>\<open>.long()\<close>, which
  is defined for a finite value only.
\<close>

record 'f arith =
  f_zero :: 'f
  f_one :: 'f
  f_less :: "'f \<Rightarrow> 'f \<Rightarrow> bool"
  f_eq :: "'f \<Rightarrow> 'f \<Rightarrow> bool"
  py_of_int :: "int \<Rightarrow> 'f"
  py_add :: "'f \<Rightarrow> 'f \<Rightarrow> 'f"
  py_sub :: "'f \<Rightarrow> 'f \<Rightarrow> 'f"
  py_mul :: "'f \<Rightarrow> 'f \<Rightarrow> 'f"
  py_div :: "'f \<Rightarrow> 'f \<Rightarrow> 'f"
  py_ceil :: "'f \<Rightarrow> error + int"
  to_float32 :: "'f \<Rightarrow> 'f"
  t_add :: "'f \<Rightarrow> 'f \<Rightarrow> 'f"
  t_sub :: "'f \<Rightarrow> 'f \<Rightarrow> 'f"
  t_mul :: "'f \<Rightarrow> 'f \<Rightarrow> 'f"
  t_div :: "'f \<Rightarrow> 'f \<Rightarrow> error + 'f"
  t_neg :: "'f \<Rightarrow> 'f"
  t_abs :: "'f \<Rightarrow> 'f"
  t_exp :: "'f \<Rightarrow> 'f"
  t_sum :: "'f list \<Rightarrow> 'f"
  t_softmax :: "'f list \<Rightarrow> 'f list"
  t_mean :: "'f list \<Rightarrow> 'f"
  t_long :: "'f \<Rightarrow> int option"

datatype 'f tensor = Float "'f list" | Long "nat list" | Float2 nat "'f list list"

text \<open>What the model callable returns: a list or tuple of tensors, or anything else.\<close>

datatype 'f model_output = Seq "'f tensor list" | NonSeq

text \<open>
  A validated modality configuration (\<^verbatim>\<open>_validate_configs\<close> admits exactly the two
  type tags). A discrete one carries the scheduler of its path: time to
  \<open>(alpha_t, d_alpha_t)\<close>.
\<close>

datatype 'f config = Continuous | Discrete "'f \<Rightarrow> 'f \<times> 'f"

text \<open>
  The argument \<^verbatim>\<open>div_free\<close>: a float or a callable. Line 261 calls the callable with
  \<^verbatim>\<open>t[idx]\<close>, a tensor of \<open>B\<close> equal times; what it returns is a Python float or a
  tensor.
\<close>

datatype 'f py_value = PyFloat 'f | PyTensor "'f list"

datatype 'f div_free = Const 'f | Callable "'f list \<Rightarrow> 'f py_value"

record 'f solver =
  model :: "'f tensor list \<Rightarrow> 'f \<Rightarrow> 'f model_output"
  modality_configs :: "'f config list"
  source_distribution_p :: "'f list option"

record ('f, 'g) rng_ops =
  multinomial :: "'f list \<Rightarrow> 'g \<Rightarrow> nat \<times> 'g"
  uniform :: "'g \<Rightarrow> 'f \<times> 'g"

text \<open>
  The world outside the local variables of \<^verbatim>\<open>sample\<close>: the tensor heap, the random
  generator and the progress display. The display is the list of what the bar shows until
  the loop ends, newest first, each entry with the position \<^verbatim>\<open>ctx.n\<close> and the counter
  in the description: one entry when the bar is built (line 200), and at every step one
  for \<^verbatim>\<open>ctx.refresh()\<close> and one for \<^verbatim>\<open>ctx.set_description\<close> (lines 303, 304). What
  the bar shows when the \<^verbatim>\<open>with\<close> block closes it is not recorded.
\<close>

record ('f, 'g) world =
  heap :: "'f tensor list"
  gen :: 'g
  display :: "(int \<times> nat) list"

text \<open>The local variables that the loop of \<^verbatim>\<open>sample\<close> updates.\<close>

record locals =
  states :: "nat list"
  intermediates :: "nat list list"
  steps_counter :: nat

datatype result = Final "nat list" | Trajectories "nat list list"

section \<open>Time discretization (lines 160--176)\<close>

text \<open>
  \<open>t_final\<close> is \<open>None\<close> while the local variable of that name is unbound: it is assigned
  only in the branch of a numeric step size. \<^verbatim>\<open>.item()\<close> turns a float32 into the
  Python float of the same value. Line 170 compares, line 172 divides (Python raises for
  a divisor equal to zero) and takes \<^verbatim>\<open>math.ceil\<close>, which raises for an infinite
  quotient or a NaN; line 174 computes the points as Python floats, and
  \<^verbatim>\<open>torch.tensor\<close> converts them to float32.
\<close>

record 'f discretization =
  t_discretization :: "'f list"
  n_steps :: int
  t_final :: "'f option"

definition discretize :: "'f arith \<Rightarrow> 'f list \<Rightarrow> 'f option \<Rightarrow> error + 'f discretization" where
  "discretize A time_grid step_size =
     (case step_size of
        None \<Rightarrow>
          Inr \<lparr>t_discretization = time_grid,
               n_steps = int (length time_grid) - 1,
               t_final = None\<rparr>
      | Some s \<Rightarrow>
          (if time_grid = [] then Inl IndexError
           else
             let t_init = hd time_grid; t_fin = last time_grid in
             if \<not> f_less A s (py_sub A t_fin t_init) then Inl AssertionError
             else if f_eq A s (f_zero A) then Inl ZeroDivisionError
             else
               (case py_ceil A (py_div A (py_sub A t_fin t_init) s) of
                  Inl e \<Rightarrow> Inl e
                | Inr n \<Rightarrow>
                    Inr \<lparr>t_discretization =
                           map (\<lambda>i. to_float32 A
                                       (py_add A t_init (py_mul A s (py_of_int A (int i)))))
                             [0..<nat n]
                           @ [to_float32 A t_fin],
                         n_steps = n,
                         t_final = Some t_fin\<rparr>)))"

text \<open>
  Modelled from the spec: \<^verbatim>\<open>get_nearest_times\<close> of
  \<^verbatim>\<open>flow_matching/solver/utils.py\<close>, which is not among the sources. For every time
  of the caller's grid it gives the nearest point of the discretization (the first one
  among equally near points).
\<close>

fun nearest :: "'f arith \<Rightarrow> 'f \<Rightarrow> 'f \<Rightarrow> 'f list \<Rightarrow> 'f" where
  "nearest A t best [] = best"
| "nearest A t best (d # ds) =
     nearest A t
       (if f_less A (t_abs A (t_sub A t d)) (t_abs A (t_sub A t best)) then d else best) ds"

definition get_nearest_times :: "'f arith \<Rightarrow> 'f list \<Rightarrow> 'f list \<Rightarrow> error + 'f list" where
  "get_nearest_times A time_grid td =
     (case td of
        [] \<Rightarrow> Inl Unmodelled
      | d # ds \<Rightarrow> Inr (map (\<lambda>t. nearest A t d ds) time_grid))"

text \<open>
  \<^verbatim>\<open>torch.argsort\<close>: the indices that sort the grid in ascending order, by insertion
  (equal times keep their order here; torch leaves it open).
\<close>

fun insort_index :: "'f arith \<Rightarrow> 'f list \<Rightarrow> nat \<Rightarrow> nat list \<Rightarrow> nat list" where
  "insort_index A xs k [] = [k]"
| "insort_index A xs k (j # js) =
     (if f_less A (xs ! j) (xs ! k) then j # insort_index A xs k js else k # j # js)"

definition argsort :: "'f arith \<Rightarrow> 'f list \<Rightarrow> nat list" where
  "argsort A xs = foldr (insort_index A xs) [0..<length xs] []"

section \<open>Tensor primitives\<close>

text \<open>\<^verbatim>\<open>x.shape[0]\<close>.\<close>

definition batch_size :: "'f tensor \<Rightarrow> nat" where
  "batch_size x = (case x of Float xs \<Rightarrow> length xs | Long xs \<Rightarrow> length xs
                   | Float2 V rows \<Rightarrow> length rows)"

text \<open>\<^verbatim>\<open>categorical\<close>: one draw for every row of probabilities (or of rates).\<close>

fun categorical :: "('f, 'g) rng_ops \<Rightarrow> 'f list list \<Rightarrow> 'g \<Rightarrow> nat list \<times> 'g" where
  "categorical R [] g = ([], g)"
| "categorical R (p # ps) g =
     (case multinomial R p g of
        (k, g1) \<Rightarrow> (case categorical R ps g1 of (ks, g2) \<Rightarrow> (k # ks, g2)))"

text \<open>\<^verbatim>\<open>torch.rand\<close> of a given size.\<close>

fun rand :: "('f, 'g) rng_ops \<Rightarrow> nat \<Rightarrow> 'g \<Rightarrow> 'f list \<times> 'g" where
  "rand R 0 g = ([], g)"
| "rand R (Suc k) g =
     (case uniform R g of
        (r, g1) \<Rightarrow> (case rand R k g1 of (rs, g2) \<Rightarrow> (r # rs, g2)))"

text \<open>\<^verbatim>\<open>F.one_hot\<close> raises when a class index is not below \<^verbatim>\<open>num_classes\<close>.\<close>

definition one_hot :: "nat list \<Rightarrow> nat \<Rightarrow> error + nat list list" where
  "one_hot xs V =
     (if list_all (\<lambda>x. x < V) xs
      then Inr (map (\<lambda>x. map (\<lambda>v. if v = x then 1 else 0) [0..<V]) xs)
      else Inl RuntimeError)"

text \<open>\<^verbatim>\<open>.to(k_t.dtype)\<close> of an entry of a one-hot tensor.\<close>

definition of_bit :: "'f arith \<Rightarrow> nat \<Rightarrow> 'f" where
  "of_bit A n = (if n = 0 then f_zero A else f_one A)"

text \<open>
  The masked assignment \<^verbatim>\<open>x[mask] = new\<close>: the coordinates where the mask holds take
  the new values in order, the others stay.
\<close>

fun masked_assign :: "nat list \<Rightarrow> bool list \<Rightarrow> nat list \<Rightarrow> nat list" where
  "masked_assign [] ms vs = []"
| "masked_assign (x # xs) [] vs = x # xs"
| "masked_assign (x # xs) (False # ms) vs = x # masked_assign xs ms vs"
| "masked_assign (x # xs) (True # ms) [] = x # xs"
| "masked_assign (x # xs) (True # ms) (v # vs) = v # masked_assign xs ms vs"

section \<open>The continuous step (line 224)\<close>

text \<open>
  An update of \<^verbatim>\<open>states[idx]\<close> either binds the entry to a new tensor (\<open>Rebind\<close>) or
  overwrites the tensor it refers to (\<open>Mutate\<close>).
\<close>

datatype 'f update = Rebind "'f tensor" | Mutate "'f tensor"

definition continuous_step :: "'f arith \<Rightarrow> 'f \<Rightarrow> 'f tensor \<Rightarrow> 'f tensor \<Rightarrow> error + 'f update" where
  "continuous_step A h model_output state =
     (case state of
        Float xs \<Rightarrow>
          (case model_output of
             Float vs \<Rightarrow>
               if length xs = length vs
               then Inr (Rebind (Float (map2 (\<lambda>x v. t_add A x (t_mul A h v)) xs vs)))
               else Inl Unmodelled
           | _ \<Rightarrow> Inl Unmodelled)
      | _ \<Rightarrow> Inl Unmodelled)"

section \<open>The discrete step (lines 227--289)\<close>

text \<open>
  Line 261: the coefficient of the divergence-free part at this step. A callable
  receives the tensor of \<open>B\<close> equal times.
\<close>

definition div_free_value :: "'f div_free \<Rightarrow> nat \<Rightarrow> 'f \<Rightarrow> 'f py_value" where
  "div_free_value df B t = (case df of Const c \<Rightarrow> PyFloat c | Callable f \<Rightarrow> f (replicate B t))"

text \<open>
  Line 264, \<^verbatim>\<open>if div_free_t > 0\<close>: the truth value of a tensor exists only if it has
  one element. The result is the coefficient as it enters the float32 products of line
  268 (a Python float is converted to the dtype of the tensor), if it is positive.
\<close>

definition positive_coefficient :: "'f arith \<Rightarrow> 'f py_value \<Rightarrow> error + 'f option" where
  "positive_coefficient A v =
     (case v of
        PyFloat c \<Rightarrow> Inr (if f_less A (f_zero A) c then Some (to_float32 A c) else None)
      | PyTensor cs \<Rightarrow>
          (case cs of
             [c] \<Rightarrow> Inr (if f_less A (f_zero A) c then Some c else None)
           | _ \<Rightarrow> Inl RuntimeError))"

text \<open>
  Lines 243--270: the jump rates \<open>u\<close> towards the drawn \<open>x_1\<close>, with the divergence-free
  part. \<open>p_0\<close> has shape \<open>[1, V]\<close> and is added to every row.
\<close>

definition compute_u ::
  "'f arith \<Rightarrow> ('f \<Rightarrow> 'f \<times> 'f) \<Rightarrow> 'f list option \<Rightarrow> 'f div_free \<Rightarrow> 'f \<Rightarrow> nat \<Rightarrow> nat
     \<Rightarrow> nat list \<Rightarrow> error + 'f list list" where
  "compute_u A scheduler p df t B V x_1 =
     (case scheduler t of
        (k_t, d_k_t) \<Rightarrow>
          (case one_hot x_1 V of
             Inl e \<Rightarrow> Inl e
           | Inr hot \<Rightarrow>
               let delta_1 = map (map (of_bit A)) hot in
               (case t_div A d_k_t (t_sub A (f_one A) k_t) of
                  Inl e \<Rightarrow> Inl e
                | Inr q \<Rightarrow>
                    let u = map (map (t_mul A q)) delta_1 in
                    (case positive_coefficient A (div_free_value df B t) of
                       Inl e \<Rightarrow> Inl e
                     | Inr None \<Rightarrow> Inr u
                     | Inr (Some c) \<Rightarrow>
                         (case p of
                            None \<Rightarrow> Inl TypeError
                          | Some p_0 \<Rightarrow>
                              if length p_0 \<noteq> V then Inl Unmodelled
                              else
                                (case t_div A (t_mul A c d_k_t)
                                        (t_mul A k_t (t_sub A (f_one A) k_t)) of
                                   Inl e \<Rightarrow> Inl e
                                 | Inr r \<Rightarrow>
                                     Inr (map2
                                            (\<lambda>u_row d_row.
                                               map2 (t_add A) u_row
                                                 (map2
                                                    (\<lambda>p0 d.
                                                       t_mul A r
                                                         (t_add A
                                                            (t_mul A (t_sub A (f_one A) k_t) p0)
                                                            (t_mul A k_t d)))
                                                    p_0 d_row))
                                            u delta_1)))))))"

text \<open>Lines 272--278: \<^verbatim>\<open>torch.where\<close> puts 0 where the one-hot of the state is set.\<close>

definition zero_self_rate ::
  "'f arith \<Rightarrow> nat list \<Rightarrow> nat \<Rightarrow> 'f list list \<Rightarrow> error + 'f list list" where
  "zero_self_rate A x_t V u =
     (case one_hot x_t V of
        Inl e \<Rightarrow> Inl e
      | Inr delta_t \<Rightarrow>
          if length delta_t \<noteq> length u then Inl Unmodelled
          else
            Inr (map2 (\<lambda>d_row u_row. map2 (\<lambda>d r. if d \<noteq> 0 then f_zero A else r) d_row u_row)
                   delta_t u))"

text \<open>The rates after zeroing, as the sampling of the jumps uses them.\<close>

definition jump_rates ::
  "'f arith \<Rightarrow> ('f \<Rightarrow> 'f \<times> 'f) \<Rightarrow> 'f list option \<Rightarrow> 'f div_free \<Rightarrow> 'f \<Rightarrow> nat \<Rightarrow> nat
     \<Rightarrow> nat list \<Rightarrow> nat list \<Rightarrow> error + 'f list list" where
  "jump_rates A scheduler p df t B V x_1 x_t =
     (case compute_u A scheduler p df t B V x_1 of
        Inl e \<Rightarrow> Inl e
      | Inr u \<Rightarrow> zero_self_rate A x_t V u)"

text \<open>
  Lines 227--289 for one modality; \<open>i\<close> and \<open>n\<close> are the loop index and \<open>n_steps\<close>, \<open>B\<close>
  the batch size of the time tensor. The generator is returned on failure too, with the
  draws made until then.
\<close>

definition discrete_step ::
  "'f arith \<Rightarrow> ('f, 'g) rng_ops \<Rightarrow> ('f \<Rightarrow> 'f \<times> 'f) \<Rightarrow> 'f list option \<Rightarrow> 'f div_free \<Rightarrow> nat
     \<Rightarrow> int \<Rightarrow> 'f \<Rightarrow> 'f \<Rightarrow> nat \<Rightarrow> 'f tensor \<Rightarrow> 'f tensor \<Rightarrow> 'g \<Rightarrow> (error + 'f update) \<times> 'g" where
  "discrete_step A R scheduler p df i n t h B model_output state g =
     (case model_output of
        Float2 V rows \<Rightarrow>
          if \<not> list_all (\<lambda>r. length r = V) rows then (Inl Unmodelled, g)
          else
            (case categorical R (map (t_softmax A) rows) g of
               (x_1, g1) \<Rightarrow>
                 if int i = n - 1 then (Inr (Rebind (Long x_1)), g1)
                 else if (case p of None \<Rightarrow> False | Some p_0 \<Rightarrow> length p_0 \<noteq> V)
                 then (Inl AssertionError, g1)
                 else
                   (case state of
                      Long x_t \<Rightarrow>
                        if length rows \<noteq> B \<or> length x_t \<noteq> B then (Inl Unmodelled, g1)
                        else
                          (case jump_rates A scheduler p df t B V x_1 x_t of
                             Inl e \<Rightarrow> (Inl e, g1)
                           | Inr u \<Rightarrow>
                               let intensity = map (t_sum A) u in
                               (case rand R (length x_t) g1 of
                                  (r, g2) \<Rightarrow>
                                    let mask_jump =
                                          map2 (\<lambda>r a.
                                                  f_less A r
                                                    (t_sub A (f_one A)
                                                       (t_exp A (t_mul A (t_neg A h) a))))
                                            r intensity
                                    in
                                    if length (filter id mask_jump) > 0 then
                                      (case categorical R
                                              (map snd (filter fst (zip mask_jump u))) g2 of
                                         (new, g3) \<Rightarrow>
                                           (Inr (Mutate
                                                   (Long (masked_assign x_t mask_jump new))),
                                            g3))
                                    else (Inr (Mutate (Long x_t)), g2)))
                    | _ \<Rightarrow> (Inl Unmodelled, g1)))
      | _ \<Rightarrow> (Inl Unmodelled, g))"

section \<open>The loop of \<^verbatim>\<open>sample\<close> (lines 205--304)\<close>

text \<open>The tensors at a list of addresses.\<close>

definition values_of :: "'f tensor list \<Rightarrow> nat list \<Rightarrow> 'f tensor list" where
  "values_of hp as = map (\<lambda>a. hp ! a) as"

text \<open>
  Binding \<^verbatim>\<open>states[idx]\<close> to a new tensor (lines 224 and 235), or writing into the
  tensor it refers to (line 287).
\<close>

definition apply_update ::
  "nat \<Rightarrow> 'f update \<Rightarrow> locals \<Rightarrow> ('f, 'g) world \<Rightarrow> locals \<times> ('f, 'g) world" where
  "apply_update idx upd l w =
     (case upd of
        Rebind v \<Rightarrow>
          (l\<lparr>states := (states l)[idx := length (heap w)]\<rparr>, w\<lparr>heap := heap w @ [v]\<rparr>)
      | Mutate v \<Rightarrow> (l, w\<lparr>heap := (heap w)[states l ! idx := v]\<rparr>))"

text \<open>
  Lines 219--292, over \<^verbatim>\<open>enumerate(self.modality_configs)\<close>. Indexing a Python
  list out of range raises \<^verbatim>\<open>IndexError\<close>.
\<close>

fun update_modalities ::
  "'f arith \<Rightarrow> ('f, 'g) rng_ops \<Rightarrow> 'f list option \<Rightarrow> 'f div_free \<Rightarrow> nat \<Rightarrow> int \<Rightarrow> 'f \<Rightarrow> 'f
     \<Rightarrow> nat \<Rightarrow> 'f tensor list \<Rightarrow> (nat \<times> 'f config) list \<Rightarrow> locals \<Rightarrow> ('f, 'g) world
     \<Rightarrow> (error + locals) \<times> ('f, 'g) world" where
  "update_modalities A R p df i n t h B outputs [] l w = (Inr l, w)"
| "update_modalities A R p df i n t h B outputs ((idx, c) # rest) l w =
     (if \<not> (idx < length outputs \<and> idx < length (states l)) then (Inl IndexError, w)
      else
      let model_output = outputs ! idx; state = heap w ! (states l ! idx) in
      case c of
        Continuous \<Rightarrow>
          (case continuous_step A h model_output state of
             Inl e \<Rightarrow> (Inl e, w)
           | Inr upd \<Rightarrow>
               (case apply_update idx upd l w of
                  (l1, w1) \<Rightarrow> update_modalities A R p df i n t h B outputs rest l1 w1))
      | Discrete scheduler \<Rightarrow>
          (case discrete_step A R scheduler p df i n t h B model_output state (gen w) of
             (Inl e, g1) \<Rightarrow> (Inl e, w\<lparr>gen := g1\<rparr>)
           | (Inr upd, g1) \<Rightarrow>
               (case apply_update idx upd l (w\<lparr>gen := g1\<rparr>) of
                  (l1, w1) \<Rightarrow> update_modalities A R p df i n t h B outputs rest l1 w1)))"

text \<open>
  \<^verbatim>\<open>t[idx] in time_grid\<close> is \<^verbatim>\<open>(t[idx] == time_grid).any()\<close>: a tensor of \<open>B\<close> equal
  times against the grid, which raises unless the two sizes broadcast.
\<close>

definition contains :: "'f arith \<Rightarrow> nat \<Rightarrow> 'f \<Rightarrow> 'f list \<Rightarrow> error + bool" where
  "contains A B t grid =
     (if B = length grid \<or> B = 1 \<or> length grid = 1
      then Inr (0 < B \<and> list_ex (f_eq A t) grid)
      else Inl RuntimeError)"

text \<open>Lines 296--299, over \<^verbatim>\<open>enumerate(states)\<close>.\<close>

fun record_intermediates ::
  "'f arith \<Rightarrow> bool \<Rightarrow> nat \<Rightarrow> 'f \<Rightarrow> 'f list \<Rightarrow> nat list \<Rightarrow> locals \<Rightarrow> ('f, 'g) world
     \<Rightarrow> (error + locals) \<times> ('f, 'g) world" where
  "record_intermediates A enable_grad B t grid [] l w = (Inr l, w)"
| "record_intermediates A enable_grad B t grid (idx # rest) l w =
     (case contains A B t grid of
        Inl e \<Rightarrow> (Inl e, w)
      | Inr b \<Rightarrow>
          if b then
            (let s = states l ! idx in
             if \<not> idx < length (intermediates l) then (Inl IndexError, w)
             else if enable_grad then
               record_intermediates A enable_grad B t grid rest
                 (l\<lparr>intermediates :=
                      (intermediates l)[idx := intermediates l ! idx @ [s]]\<rparr>) w
             else
               record_intermediates A enable_grad B t grid rest
                 (l\<lparr>intermediates :=
                      (intermediates l)[idx := intermediates l ! idx @ [length (heap w)]]\<rparr>)
                 (w\<lparr>heap := heap w @ [heap w ! s]\<rparr>))
          else record_intermediates A enable_grad B t grid rest l w)"

text \<open>
  Line 302: the position \<^verbatim>\<open>(torch.cat(t) * n_steps).mean().long().item()\<close>, over the
  \<open>M\<close> time tensors of \<open>B\<close> entries each. The conversion to an integer is defined for a
  finite value only.
\<close>

definition position :: "'f arith \<Rightarrow> nat \<Rightarrow> nat \<Rightarrow> 'f \<Rightarrow> int \<Rightarrow> int option" where
  "position A M B t n =
     t_long A
       (t_mean A (map (\<lambda>x. t_mul A x (to_float32 A (py_of_int A n))) (replicate (M * B) t)))"

text \<open>
  One iteration of the loop: \<open>t\<close> is \<^verbatim>\<open>t_discretization[i]\<close>, \<open>h\<close> the difference of line
  208, and every \<^verbatim>\<open>t[idx]\<close> is \<^verbatim>\<open>t + h\<close> after line 292. In lines 302--304
  \<^verbatim>\<open>torch.cat\<close> raises for an empty list; \<^verbatim>\<open>ctx.refresh()\<close> shows the new position
  with the description of the step before, \<^verbatim>\<open>ctx.set_description\<close> shows it again with
  the new counter. With \<open>B = 0\<close> the mean is NaN, which has no position.
\<close>

definition step ::
  "'f arith \<Rightarrow> ('f, 'g) rng_ops \<Rightarrow> 'f solver \<Rightarrow> 'f div_free \<Rightarrow> bool \<Rightarrow> bool \<Rightarrow> bool \<Rightarrow> nat
     \<Rightarrow> 'f list \<Rightarrow> int \<Rightarrow> 'f list \<Rightarrow> nat \<Rightarrow> locals \<Rightarrow> ('f, 'g) world
     \<Rightarrow> (error + locals) \<times> ('f, 'g) world" where
  "step A R S df return_intermediates enable_grad verbose B td n grid i l w =
     (let t = td ! i; h = t_sub A (td ! (i + 1)) (td ! i) in
      case model S (values_of (heap w) (states l)) t of
        NonSeq \<Rightarrow> (Inl TypeError, w)
      | Seq outputs \<Rightarrow>
          if length outputs \<noteq> length (states l) then (Inl TypeError, w)
          else
            (case update_modalities A R (source_distribution_p S) df i n t h B outputs
                    (enumerate 0 (modality_configs S)) l w of
               (Inl e, w1) \<Rightarrow> (Inl e, w1)
             | (Inr l1, w1) \<Rightarrow>
                 let l2 = l1\<lparr>steps_counter := steps_counter l1 + 1\<rparr> in
                 (case (if return_intermediates
                        then record_intermediates A enable_grad B (t_add A t h) grid
                               [0..<length (states l2)] l2 w1
                        else (Inr l2, w1)) of
                    (Inl e, w2) \<Rightarrow> (Inl e, w2)
                  | (Inr l3, w2) \<Rightarrow>
                      if verbose then
                        (if states l3 = [] then (Inl RuntimeError, w2)
                         else if B = 0 then (Inl Unmodelled, w2)
                         else
                           (case position A (length (states l3)) B (t_add A t h) n of
                              None \<Rightarrow> (Inl Unmodelled, w2)
                            | Some pos \<Rightarrow>
                                (Inr l3,
                                 w2\<lparr>display :=
                                      (pos, steps_counter l3) # (pos, steps_counter l3 - 1)
                                      # display w2\<rparr>)))
                      else (Inr l3, w2))))"

text \<open>\<^verbatim>\<open>for i in range(n_steps)\<close>: an exception ends the loop.\<close>

fun loop ::
  "'f arith \<Rightarrow> ('f, 'g) rng_ops \<Rightarrow> 'f solver \<Rightarrow> 'f div_free \<Rightarrow> bool \<Rightarrow> bool \<Rightarrow> bool \<Rightarrow> nat
     \<Rightarrow> 'f list \<Rightarrow> int \<Rightarrow> 'f list \<Rightarrow> nat list \<Rightarrow> locals \<Rightarrow> ('f, 'g) world
     \<Rightarrow> (error + locals) \<times> ('f, 'g) world" where
  "loop A R S df ri eg vb B td n grid [] l w = (Inr l, w)"
| "loop A R S df ri eg vb B td n grid (i # rest) l w =
     (case step A R S df ri eg vb B td n grid i l w of
        (Inl e, w1) \<Rightarrow> (Inl e, w1)
      | (Inr l1, w1) \<Rightarrow> loop A R S df ri eg vb B td n grid rest l1 w1)"

section \<open>\<^verbatim>\<open>sample\<close> (lines 142--315)\<close>

text \<open>Lines 186--191: the states are the caller's tensors themselves or clones of them.\<close>

fun clone_all :: "bool \<Rightarrow> nat list \<Rightarrow> 'f tensor list \<Rightarrow> nat list \<times> 'f tensor list" where
  "clone_all enable_grad [] hp = ([], hp)"
| "clone_all enable_grad (x # xs) hp =
     (if enable_grad
      then (case clone_all enable_grad xs hp of (as, hp1) \<Rightarrow> (x # as, hp1))
      else (case clone_all enable_grad xs (hp @ [hp ! x]) of
              (as, hp1) \<Rightarrow> (length hp # as, hp1)))"

text \<open>Lines 310--313: \<^verbatim>\<open>[intermediates[idx][i] for i in order]\<close>.\<close>

fun pick :: "nat list \<Rightarrow> nat list \<Rightarrow> error + nat list" where
  "pick xs [] = Inr []"
| "pick xs (i # rest) =
     (if i < length xs
      then (case pick xs rest of Inl e \<Rightarrow> Inl e | Inr ys \<Rightarrow> Inr (xs ! i # ys))
      else Inl IndexError)"

fun reorder :: "nat list \<Rightarrow> nat list list \<Rightarrow> error + nat list list" where
  "reorder order [] = Inr []"
| "reorder order (xs # rest) =
     (case pick xs order of
        Inl e \<Rightarrow> Inl e
      | Inr ys \<Rightarrow> (case reorder order rest of Inl e \<Rightarrow> Inl e | Inr yss \<Rightarrow> Inr (ys # yss)))"

text \<open>
  The second argument is the module's \<^verbatim>\<open>TQDM_AVAILABLE\<close>. \<open>x_init\<close> are the addresses
  of the caller's tensors; a call whose addresses are not on the heap is not a call.
  Line 150 tests \<^verbatim>\<open>not div_free == 0.0\<close>, which holds for every callable.
\<close>

definition sample ::
  "'f arith \<Rightarrow> bool \<Rightarrow> ('f, 'g) rng_ops \<Rightarrow> 'f solver \<Rightarrow> nat list \<Rightarrow> 'f option \<Rightarrow> 'f div_free
     \<Rightarrow> string \<Rightarrow> 'f list \<Rightarrow> bool \<Rightarrow> bool \<Rightarrow> bool \<Rightarrow> ('f, 'g) world
     \<Rightarrow> (error + result) \<times> ('f, 'g) world" where
  "sample A tqdm_available R S x_init step_size df method time_grid return_intermediates
       enable_grad verbose w =
     (if \<not> list_all (\<lambda>a. a < length (heap w)) x_init then (Inl Unmodelled, w)
      else if length x_init \<noteq> length (modality_configs S) then (Inl ValueError, w)
      else if method \<noteq> ''euler'' then (Inl NotImplementedError, w)
      else if (case df of Const c \<Rightarrow> \<not> f_eq A c (f_zero A) | Callable f \<Rightarrow> True)
              \<and> source_distribution_p S = None
      then (Inl AssertionError, w)
      else
        (case x_init of
           [] \<Rightarrow> (Inl IndexError, w)
         | x0 # xs \<Rightarrow>
             let B = batch_size (heap w ! x0) in
             (case discretize A time_grid step_size of
                Inl e \<Rightarrow> (Inl e, w)
              | Inr d \<Rightarrow>
                  (case (if step_size \<noteq> None \<and> return_intermediates
                         then (case get_nearest_times A time_grid (t_discretization d) of
                                 Inl e \<Rightarrow> Inl e
                               | Inr nearest_times \<Rightarrow>
                                   Inr (argsort A time_grid, nearest_times))
                         else Inr ([], time_grid)) of
                     Inl e \<Rightarrow> (Inl e, w)
                   | Inr (order, grid) \<Rightarrow>
                       (case clone_all enable_grad x_init (heap w) of
                          (sts, hp1) \<Rightarrow>
                            (case (if return_intermediates
                                   then clone_all enable_grad x_init hp1
                                   else ([], hp1)) of
                               (ims, hp2) \<Rightarrow>
                                 let l = \<lparr>states = sts, intermediates = map (\<lambda>a. [a]) ims,
                                          steps_counter = 0\<rparr>;
                                     w1 = w\<lparr>heap := hp2\<rparr>
                                 in
                                 if verbose \<and> \<not> tqdm_available then (Inl ImportError, w1)
                                 else if verbose \<and> t_final d = None
                                 then (Inl UnboundLocalError, w1)
                                 else
                                   (case loop A R S df return_intermediates enable_grad verbose
                                           B (t_discretization d) (n_steps d) grid
                                           [0..<nat (n_steps d)] l
                                           (if verbose
                                            then w1\<lparr>display := (0, 0) # display w1\<rparr>
                                            else w1) of
                                      (Inl e, w2) \<Rightarrow> (Inl e, w2)
                                    | (Inr l2, w2) \<Rightarrow>
                                        if return_intermediates then
                                          (if step_size = None
                                           then (Inr (Trajectories (intermediates l2)), w2)
                                           else
                                             (case reorder order (intermediates l2) of
                                                Inl e \<Rightarrow> (Inl e, w2)
                                              | Inr tr \<Rightarrow> (Inr (Trajectories tr), w2)))
                                        else (Inr (Final (states l2)), w2))))))))"

section \<open>Exact arithmetic\<close>

text \<open>\<^verbatim>\<open>.long()\<close> of a float: truncation towards zero.\<close>

definition trunc :: "real \<Rightarrow> int" where
  "trunc x = (if 0 \<le> x then \<lfloor>x\<rfloor> else \<lceil>x\<rceil>)"

text \<open>
  The real numbers, without rounding and without infinities: what the program computes
  as long as every result is representable. A tensor division by zero is declined.
  \<open>py_div\<close> is only reached with a divisor that is not zero, \<open>t_mean\<close> only with a list
  that is not empty.
\<close>

definition exact :: "real arith" where
  "exact =
     \<lparr>f_zero = 0, f_one = 1, f_less = (<), f_eq = (=),
      py_of_int = of_int, py_add = (+), py_sub = (-), py_mul = (*), py_div = (/),
      py_ceil = (\<lambda>x. Inr \<lceil>x\<rceil>), to_float32 = (\<lambda>x. x),
      t_add = (+), t_sub = (-), t_mul = (*),
      t_div = (\<lambda>a b. if b = 0 then Inl Unmodelled else Inr (a / b)),
      t_neg = uminus, t_abs = abs, t_exp = exp, t_sum = sum_list,
      t_softmax = (\<lambda>xs. map (\<lambda>x. exp x / sum_list (map exp xs)) xs),
      t_mean = (\<lambda>xs. sum_list xs / real (length xs)), t_long = (\<lambda>x. Some (trunc x))\<rparr>"

section \<open>IEEE 754 arithmetic\<close>

text \<open>
  A floating-point value is a finite real, an infinity or NaN; the sign of a zero is not
  represented (a zero is taken as positive where it matters, in a division by it). A
  format has a precision \<open>p\<close>, the least exponent \<open>emin\<close> of a normal number and the
  exponent \<open>emax\<close> with \<open>2 ^ emax\<close> the first magnitude that overflows.
\<close>

datatype fl = Fin real | PInf | NInf | NaN

record format =
  precision :: nat
  emin :: int
  emax :: int

definition binary32 :: format where
  "binary32 = \<lparr>precision = 24, emin = - 126, emax = 128\<rparr>"

definition binary64 :: format where
  "binary64 = \<lparr>precision = 53, emin = - 1022, emax = 1024\<rparr>"

text \<open>Rounding to the nearest integer, ties to even.\<close>

definition round_half_even :: "real \<Rightarrow> int" where
  "round_half_even r =
     (let f = \<lfloor>r\<rfloor>; d = r - of_int f in
      if d < 1 / 2 then f else if 1 / 2 < d then f + 1 else if even f then f else f + 1)"

text \<open>
  Rounding a real to a format: to the nearest multiple of the unit in the last place of
  its binade (of the least binade for a subnormal), and to an infinity on overflow.
\<close>

definition round_to :: "format \<Rightarrow> real \<Rightarrow> fl" where
  "round_to F x =
     (if x = 0 then Fin 0
      else
        let e = max \<lfloor>log 2 \<bar>x\<bar>\<rfloor> (emin F);
            q = 2 powi (e - int (precision F) + 1);
            y = of_int (round_half_even (x / q)) * q
        in if 2 powi (emax F) \<le> \<bar>y\<bar> then (if 0 < x then PInf else NInf) else Fin y)"

definition fl_neg :: "fl \<Rightarrow> fl" where
  "fl_neg a = (case a of Fin x \<Rightarrow> Fin (- x) | PInf \<Rightarrow> NInf | NInf \<Rightarrow> PInf | NaN \<Rightarrow> NaN)"

definition fl_abs :: "fl \<Rightarrow> fl" where
  "fl_abs a = (case a of Fin x \<Rightarrow> Fin \<bar>x\<bar> | PInf \<Rightarrow> PInf | NInf \<Rightarrow> PInf | NaN \<Rightarrow> NaN)"

fun fl_add :: "format \<Rightarrow> fl \<Rightarrow> fl \<Rightarrow> fl" where
  "fl_add F NaN b = NaN"
| "fl_add F a NaN = NaN"
| "fl_add F (Fin x) (Fin y) = round_to F (x + y)"
| "fl_add F PInf NInf = NaN"
| "fl_add F NInf PInf = NaN"
| "fl_add F PInf b = PInf"
| "fl_add F NInf b = NInf"
| "fl_add F (Fin x) b = b"

definition fl_sub :: "format \<Rightarrow> fl \<Rightarrow> fl \<Rightarrow> fl" where
  "fl_sub F a b = fl_add F a (fl_neg b)"

text \<open>The sign of a value: \<open>1\<close>, \<open>-1\<close>, or \<open>0\<close> for a zero.\<close>

definition fl_sign :: "fl \<Rightarrow> int" where
  "fl_sign a = (case a of Fin x \<Rightarrow> (if 0 < x then 1 else if x < 0 then - 1 else 0)
                | PInf \<Rightarrow> 1 | NInf \<Rightarrow> - 1 | NaN \<Rightarrow> 0)"

definition signed_inf :: "int \<Rightarrow> fl" where
  "signed_inf s = (if 0 < s then PInf else if s < 0 then NInf else NaN)"

fun fl_mul :: "format \<Rightarrow> fl \<Rightarrow> fl \<Rightarrow> fl" where
  "fl_mul F NaN b = NaN"
| "fl_mul F a NaN = NaN"
| "fl_mul F (Fin x) (Fin y) = round_to F (x * y)"
| "fl_mul F a b = signed_inf (fl_sign a * fl_sign b)"

fun fl_div :: "format \<Rightarrow> fl \<Rightarrow> fl \<Rightarrow> fl" where
  "fl_div F NaN b = NaN"
| "fl_div F a NaN = NaN"
| "fl_div F (Fin x) (Fin y) =
     (if y = 0 then signed_inf (fl_sign (Fin x)) else round_to F (x / y))"
| "fl_div F (Fin x) b = Fin 0"
| "fl_div F a (Fin y) = signed_inf (fl_sign a * (if y < 0 then - 1 else 1))"
| "fl_div F a b = NaN"

fun fl_less :: "fl \<Rightarrow> fl \<Rightarrow> bool" where
  "fl_less NaN b = False"
| "fl_less a NaN = False"
| "fl_less (Fin x) (Fin y) = (x < y)"
| "fl_less PInf b = False"
| "fl_less a PInf = True"
| "fl_less NInf b = (b \<noteq> NInf)"
| "fl_less a NInf = False"

definition fl_eq :: "fl \<Rightarrow> fl \<Rightarrow> bool" where
  "fl_eq a b = (a \<noteq> NaN \<and> a = b)"

text \<open>\<^verbatim>\<open>math.ceil\<close> raises for an infinity and for NaN.\<close>

definition fl_ceil :: "fl \<Rightarrow> error + int" where
  "fl_ceil a = (case a of Fin x \<Rightarrow> Inr \<lceil>x\<rceil> | PInf \<Rightarrow> Inl OverflowError
                | NInf \<Rightarrow> Inl OverflowError | NaN \<Rightarrow> Inl ValueError)"

definition fl_round :: "format \<Rightarrow> fl \<Rightarrow> fl" where
  "fl_round F a = (case a of Fin x \<Rightarrow> round_to F x | _ \<Rightarrow> a)"

text \<open>
  The library routines: the exponential is taken as correctly rounded and sums run from
  left to right, which a library need not do. The theorems below that are stated for
  \<open>ieee\<close> evaluate none of them; those stated for every \<open>arith\<close> hold however they are
  computed.
\<close>

definition fl_exp :: "format \<Rightarrow> fl \<Rightarrow> fl" where
  "fl_exp F a = (case a of Fin x \<Rightarrow> round_to F (exp x) | PInf \<Rightarrow> PInf | NInf \<Rightarrow> Fin 0
                 | NaN \<Rightarrow> NaN)"

definition fl_sum :: "format \<Rightarrow> fl list \<Rightarrow> fl" where
  "fl_sum F xs = foldl (fl_add F) (Fin 0) xs"

definition fl_softmax :: "format \<Rightarrow> fl list \<Rightarrow> fl list" where
  "fl_softmax F xs = map (\<lambda>x. fl_div F (fl_exp F x) (fl_sum F (map (fl_exp F) xs))) xs"

definition fl_mean :: "format \<Rightarrow> fl list \<Rightarrow> fl" where
  "fl_mean F xs = fl_div F (fl_sum F xs) (round_to F (real (length xs)))"

definition fl_long :: "fl \<Rightarrow> int option" where
  "fl_long a = (case a of Fin x \<Rightarrow> Some (trunc x) | _ \<Rightarrow> None)"

definition ieee :: "fl arith" where
  "ieee =
     \<lparr>f_zero = Fin 0, f_one = Fin 1, f_less = fl_less, f_eq = fl_eq,
      py_of_int = (\<lambda>i. round_to binary64 (of_int i)),
      py_add = fl_add binary64, py_sub = fl_sub binary64, py_mul = fl_mul binary64,
      py_div = fl_div binary64, py_ceil = fl_ceil, to_float32 = fl_round binary32,
      t_add = fl_add binary32, t_sub = fl_sub binary32, t_mul = fl_mul binary32,
      t_div = (\<lambda>a b. Inr (fl_div binary32 a b)),
      t_neg = fl_neg, t_abs = fl_abs, t_exp = fl_exp binary32, t_sum = fl_sum binary32,
      t_softmax = fl_softmax binary32, t_mean = fl_mean binary32, t_long = fl_long\<rparr>"

section \<open>Rounding\<close>

text \<open>
  How \<open>round_to\<close> rounds a given number: the binade \<open>e\<close> of the number and the nearest
  multiple \<open>m\<close> of the unit in the last place determine the result; halfway between two
  multiples the even one is taken.
\<close>

lemma round_half_even_nearest:
  assumes "\<bar>r - of_int m\<bar> < 1 / 2"
  shows "round_half_even r = m"
proof (cases "of_int m \<le> r")
  case True
  with assms have "\<lfloor>r\<rfloor> = m" by (intro floor_unique) auto
  with assms True show ?thesis by (simp add: round_half_even_def Let_def)
next
  case False
  with assms have f: "\<lfloor>r\<rfloor> = m - 1" by (intro floor_unique) auto
  from assms False have "1 / 2 < r - of_int (m - 1)" by auto
  with f show ?thesis by (simp add: round_half_even_def Let_def)
qed

lemma round_half_even_tie:
  assumes "r = of_int f + 1 / 2"
  shows "round_half_even r = (if even f then f else f + 1)"
proof -
  from assms have "\<lfloor>r\<rfloor> = f" by (intro floor_unique) auto
  with assms show ?thesis by (simp add: round_half_even_def Let_def)
qed

lemma floor_log2_eq:
  assumes "2 powi e \<le> x" and "x < 2 powi (e + 1)"
  shows "\<lfloor>log 2 x\<rfloor> = e"
proof -
  have pos: "0 < (2::real) powi e" by (simp add: power_int_def)
  with assms(1) have x: "0 < x" by linarith
  have "(2::real) powr real_of_int e = 2 powi e"
    by (rule powr_real_of_int') simp_all
  moreover have "(2::real) powr (real_of_int e + 1) = 2 powi (e + 1)"
    using powr_real_of_int' [of 2 "e + 1"] by simp
  ultimately show ?thesis
    using assms x floor_log_eq_powr_iff [of x 2 e] by simp
qed

lemma round_to_cases:
  assumes "x \<noteq> 0" and "2 powi e \<le> \<bar>x\<bar>" and "\<bar>x\<bar> < 2 powi (e + 1)" and "emin F \<le> e"
    and "round_half_even (x / 2 powi (e - int (precision F) + 1)) = m"
    and "y = of_int m * 2 powi (e - int (precision F) + 1)"
  shows "round_to F x =
           (if 2 powi (emax F) \<le> \<bar>y\<bar> then (if 0 < x then PInf else NInf) else Fin y)"
proof -
  from floor_log2_eq [OF assms(2,3)] assms(4) have "max \<lfloor>log 2 \<bar>x\<bar>\<rfloor> (emin F) = e" by simp
  with assms(1,5,6) show ?thesis by (simp add: round_to_def Let_def)
qed

lemma round_to_nearest:
  assumes "x \<noteq> 0" and "2 powi e \<le> \<bar>x\<bar>" and "\<bar>x\<bar> < 2 powi (e + 1)" and "emin F \<le> e"
    and "\<bar>x / 2 powi (e - int (precision F) + 1) - of_int m\<bar> < 1 / 2"
    and "y = of_int m * 2 powi (e - int (precision F) + 1)"
    and "\<bar>y\<bar> < 2 powi (emax F)"
  shows "round_to F x = Fin y"
  using round_to_cases [OF assms(1-4) round_half_even_nearest [OF assms(5)] assms(6)] assms(7)
  by simp

lemma round_to_tie:
  assumes "x \<noteq> 0" and "2 powi e \<le> \<bar>x\<bar>" and "\<bar>x\<bar> < 2 powi (e + 1)" and "emin F \<le> e"
    and "x / 2 powi (e - int (precision F) + 1) = of_int f + 1 / 2"
    and "y = of_int (if even f then f else f + 1) * 2 powi (e - int (precision F) + 1)"
    and "\<bar>y\<bar> < 2 powi (emax F)"
  shows "round_to F x = Fin y"
  using round_to_cases [OF assms(1-4) round_half_even_tie [OF assms(5)] assms(6)] assms(7)
  by simp

lemma round_to_overflow:
  assumes "0 < x" and "2 powi e \<le> \<bar>x\<bar>" and "\<bar>x\<bar> < 2 powi (e + 1)" and "emin F \<le> e"
    and "\<bar>x / 2 powi (e - int (precision F) + 1) - of_int m\<bar> < 1 / 2"
    and "2 powi (emax F) \<le> \<bar>real_of_int m * 2 powi (e - int (precision F) + 1)\<bar>"
  shows "round_to F x = PInf"
  using round_to_cases [OF _ assms(2-4) round_half_even_nearest [OF assms(5)] refl] assms(1,6)
  by simp

lemma round_to_zero: "round_to F 0 = Fin 0"
  by (simp add: round_to_def)

text \<open>The roundings that the evaluations below meet.\<close>


lemma rnd_0:
  "round_to binary64 1 = Fin 1"
  by (rule round_to_nearest [where e = "0" and m = "4503599627370496"]) (simp_all add: binary64_def)

lemma rnd_1:
  "round_to binary64 (18014398509481984 / 6004799503160661) = Fin 3"
  by (rule round_to_nearest [where e = "1" and m = "6755399441055744"]) (simp_all add: binary64_def)

lemma rnd_2:
  "round_to binary64 (6004799503160661 / 18014398509481984) = Fin (6004799503160661 / 18014398509481984)"
  by (rule round_to_nearest [where e = "- 2" and m = "6004799503160661"]) (simp_all add: binary64_def)

lemma rnd_3:
  "round_to binary32 (6004799503160661 / 18014398509481984) = Fin (11184811 / 33554432)"
  by (rule round_to_nearest [where e = "- 2" and m = "11184811"]) (simp_all add: binary32_def)

lemma rnd_4:
  "round_to binary64 2 = Fin 2"
  by (rule round_to_nearest [where e = "1" and m = "4503599627370496"]) (simp_all add: binary64_def)

lemma rnd_5:
  "round_to binary64 (6004799503160661 / 9007199254740992) = Fin (6004799503160661 / 9007199254740992)"
  by (rule round_to_nearest [where e = "- 1" and m = "6004799503160661"]) (simp_all add: binary64_def)

lemma rnd_6:
  "round_to binary32 (6004799503160661 / 9007199254740992) = Fin (11184811 / 16777216)"
  by (rule round_to_nearest [where e = "- 1" and m = "11184811"]) (simp_all add: binary32_def)

lemma rnd_7:
  "round_to binary32 1 = Fin 1"
  by (rule round_to_nearest [where e = "0" and m = "8388608"]) (simp_all add: binary32_def)

lemma rnd_8:
  "round_to binary32 (1 / 2) = Fin (1 / 2)"
  by (rule round_to_nearest [where e = "- 1" and m = "8388608"]) (simp_all add: binary32_def)

lemma rnd_9:
  "round_to binary32 2 = Fin 2"
  by (rule round_to_nearest [where e = "1" and m = "8388608"]) (simp_all add: binary32_def)

lemma rnd_10:
  "round_to binary32 (- 1) = Fin (- 1)"
  by (rule round_to_nearest [where e = "0" and m = "- 8388608"]) (simp_all add: binary32_def)

lemma rnd_11:
  "round_to binary32 (1 / 4) = Fin (1 / 4)"
  by (rule round_to_nearest [where e = "- 2" and m = "8388608"]) (simp_all add: binary32_def)

lemma rnd_12:
  "round_to binary32 (- 4) = Fin (- 4)"
  by (rule round_to_nearest [where e = "2" and m = "- 8388608"]) (simp_all add: binary32_def)

lemma rnd_13:
  "round_to binary32 (3 / 4) = Fin (3 / 4)"
  by (rule round_to_nearest [where e = "- 1" and m = "12582912"]) (simp_all add: binary32_def)

lemma rnd_14:
  "round_to binary32 (- 3) = Fin (- 3)"
  by (rule round_to_nearest [where e = "1" and m = "- 12582912"]) (simp_all add: binary32_def)

lemma rnd_15:
  "round_to binary32 4 = Fin 4"
  by (rule round_to_nearest [where e = "2" and m = "8388608"]) (simp_all add: binary32_def)

lemma rnd_16:
  "round_to binary32 3 = Fin 3"
  by (rule round_to_nearest [where e = "1" and m = "12582912"]) (simp_all add: binary32_def)

lemma rnd_17:
  "round_to binary32 5 = Fin 5"
  by (rule round_to_nearest [where e = "2" and m = "10485760"]) (simp_all add: binary32_def)

lemma rnd_18:
  "round_to binary64 (18014398509481984 / 3602879701896397) = Fin 5"
  by (rule round_to_nearest [where e = "2" and m = "5629499534213120"]) (simp_all add: binary64_def)

lemma rnd_19:
  "round_to binary64 (3602879701896397 / 18014398509481984) = Fin (3602879701896397 / 18014398509481984)"
  by (rule round_to_nearest [where e = "- 3" and m = "7205759403792794"]) (simp_all add: binary64_def)

lemma rnd_20:
  "round_to binary32 (3602879701896397 / 18014398509481984) = Fin (13421773 / 67108864)"
  by (rule round_to_nearest [where e = "- 3" and m = "13421773"]) (simp_all add: binary32_def)

lemma rnd_21:
  "round_to binary64 (3602879701896397 / 9007199254740992) = Fin (3602879701896397 / 9007199254740992)"
  by (rule round_to_nearest [where e = "- 2" and m = "7205759403792794"]) (simp_all add: binary64_def)

lemma rnd_22:
  "round_to binary32 (3602879701896397 / 9007199254740992) = Fin (13421773 / 33554432)"
  by (rule round_to_nearest [where e = "- 2" and m = "13421773"]) (simp_all add: binary32_def)

lemma rnd_23:
  "round_to binary64 3 = Fin 3"
  by (rule round_to_nearest [where e = "1" and m = "6755399441055744"]) (simp_all add: binary64_def)

lemma rnd_24:
  "round_to binary64 (10808639105689191 / 18014398509481984) = Fin (1351079888211149 / 2251799813685248)"
  by (rule round_to_tie [where e = "- 1" and f = "5404319552844595"]) (simp_all add: binary64_def)

lemma rnd_25:
  "round_to binary64 (1351079888211149 / 2251799813685248) = Fin (1351079888211149 / 2251799813685248)"
  by (rule round_to_nearest [where e = "- 1" and m = "5404319552844596"]) (simp_all add: binary64_def)

lemma rnd_26:
  "round_to binary32 (1351079888211149 / 2251799813685248) = Fin (5033165 / 8388608)"
  by (rule round_to_nearest [where e = "- 1" and m = "10066330"]) (simp_all add: binary32_def)

lemma rnd_27:
  "round_to binary64 4 = Fin 4"
  by (rule round_to_nearest [where e = "2" and m = "4503599627370496"]) (simp_all add: binary64_def)

lemma rnd_28:
  "round_to binary64 (3602879701896397 / 4503599627370496) = Fin (3602879701896397 / 4503599627370496)"
  by (rule round_to_nearest [where e = "- 1" and m = "7205759403792794"]) (simp_all add: binary64_def)

lemma rnd_29:
  "round_to binary32 (3602879701896397 / 4503599627370496) = Fin (13421773 / 16777216)"
  by (rule round_to_nearest [where e = "- 1" and m = "13421773"]) (simp_all add: binary32_def)

lemma rnd_30:
  "round_to binary32 (13421773 / 67108864) = Fin (13421773 / 67108864)"
  by (rule round_to_nearest [where e = "- 3" and m = "13421773"]) (simp_all add: binary32_def)

lemma rnd_31:
  "round_to binary32 (80530637 / 67108864) = Fin (5033165 / 4194304)"
  by (rule round_to_nearest [where e = "0" and m = "10066330"]) (simp_all add: binary32_def)

lemma rnd_32:
  "round_to binary32 (93952413 / 67108864) = Fin (2936013 / 2097152)"
  by (rule round_to_nearest [where e = "0" and m = "11744052"]) (simp_all add: binary32_def)

lemma rnd_33:
  "round_to binary32 (6710887 / 33554432) = Fin (6710887 / 33554432)"
  by (rule round_to_nearest [where e = "- 3" and m = "13421774"]) (simp_all add: binary32_def)

lemma rnd_34:
  "round_to binary32 (53687095 / 33554432) = Fin (6710887 / 4194304)"
  by (rule round_to_nearest [where e = "0" and m = "13421774"]) (simp_all add: binary32_def)

lemma rnd_35:
  "round_to binary32 (3355443 / 16777216) = Fin (3355443 / 16777216)"
  by (rule round_to_nearest [where e = "- 3" and m = "13421772"]) (simp_all add: binary32_def)

lemma rnd_36:
  "round_to binary32 (30198991 / 16777216) = Fin (1887437 / 1048576)"
  by (rule round_to_tie [where e = "0" and f = "15099495"]) (simp_all add: binary32_def)

lemma rnd_37:
  "round_to binary32 (33554435 / 16777216) = Fin (8388609 / 4194304)"
  by (rule round_to_nearest [where e = "1" and m = "8388609"]) (simp_all add: binary32_def)

lemma rnd_38:
  "round_to binary64 (1 / 4) = Fin (1 / 4)"
  by (rule round_to_nearest [where e = "- 2" and m = "4503599627370496"]) (simp_all add: binary64_def)

lemma rnd_39:
  "round_to binary64 (1 / 2) = Fin (1 / 2)"
  by (rule round_to_nearest [where e = "- 1" and m = "4503599627370496"]) (simp_all add: binary64_def)

lemma rnd_40:
  "round_to binary64 (3 / 4) = Fin (3 / 4)"
  by (rule round_to_nearest [where e = "- 1" and m = "6755399441055744"]) (simp_all add: binary64_def)

lemma rnd_41:
  "round_to binary32 (- (1 / 4)) = Fin (- (1 / 4))"
  by (rule round_to_nearest [where e = "- 2" and m = "- 8388608"]) (simp_all add: binary32_def)

lemma rnd_42:
  "round_to binary32 (- (1 / 2)) = Fin (- (1 / 2))"
  by (rule round_to_nearest [where e = "- 1" and m = "- 8388608"]) (simp_all add: binary32_def)

lemma rnd_43:
  "round_to binary32 (- (3 / 4)) = Fin (- (3 / 4))"
  by (rule round_to_nearest [where e = "- 1" and m = "- 12582912"]) (simp_all add: binary32_def)


lemma rnd_overflow:
  "round_to binary64 (2 ^ 1030) = PInf"
  by (rule round_to_overflow [where e = 1030 and m = 4503599627370496])
    (simp_all add: binary64_def)

lemmas rounding = round_to_zero rnd_0 rnd_1 rnd_2 rnd_3 rnd_4 rnd_5 rnd_6 rnd_7 rnd_8
  rnd_9 rnd_10 rnd_11 rnd_12 rnd_13 rnd_14 rnd_15 rnd_16 rnd_17 rnd_18 rnd_19 rnd_20
  rnd_21 rnd_22 rnd_23 rnd_24 rnd_25 rnd_26 rnd_27 rnd_28 rnd_29 rnd_30 rnd_31 rnd_32
  rnd_33 rnd_34 rnd_35 rnd_36 rnd_37 rnd_38 rnd_39 rnd_40 rnd_41 rnd_42 rnd_43

text \<open>The operations of \<open>ieee\<close>, for evaluation; its tensor division always has a result.\<close>

lemmas ieee_ops = ieee_def fl_sub_def fl_neg_def fl_abs_def fl_eq_def fl_ceil_def fl_round_def
  fl_sign_def signed_inf_def

lemma ieee_t_div: "t_div ieee a b = Inr (fl_div binary32 a b)"
  by (simp add: ieee_def)

section \<open>Properties of the time discretization\<close>

text \<open>
  C6. With \<^verbatim>\<open>step_size=None\<close> the discretization is the caller's time grid itself and
  the number of steps is \<^verbatim>\<open>len(time_grid) - 1\<close>, in every arithmetic; this branch cannot
  fail.
\<close>

theorem discretize_None:
  "discretize A time_grid None =
     Inr \<lparr>t_discretization = time_grid, n_steps = int (length time_grid) - 1, t_final = None\<rparr>"
  by (simp add: discretize_def)

text \<open>
  C7 (as amended). Let the step size \<open>s\<close> be below \<open>t_final - t_init\<close> and not zero, and
  let the ceiling of the binary64 quotient \<open>(t_final - t_init) / s\<close> exist (the quotient
  is finite); call it \<open>n\<close>. Then there are \<open>n\<close> steps, the discretization has \<open>n + 1\<close>
  points, its point \<open>i < n\<close> is the binary64 value of \<open>t_init + s * i\<close> converted to float32,
  and its last point is \<open>t_final\<close> converted to float32 (which is \<open>t_final\<close> itself when the
  grid is a float32 tensor). This holds in every arithmetic.
\<close>

theorem discretize_step_size:
  assumes "time_grid \<noteq> []"
    and "f_less A s (py_sub A (last time_grid) (hd time_grid))"
    and "\<not> f_eq A s (f_zero A)"
    and "py_ceil A (py_div A (py_sub A (last time_grid) (hd time_grid)) s) = Inr n"
  shows "\<exists>d. discretize A time_grid (Some s) = Inr d
           \<and> n_steps d = n \<and> t_final d = Some (last time_grid)
           \<and> length (t_discretization d) = nat n + 1
           \<and> (\<forall>i < nat n. t_discretization d ! i =
                  to_float32 A (py_add A (hd time_grid) (py_mul A s (py_of_int A (int i)))))
           \<and> last (t_discretization d) = to_float32 A (last time_grid)"
  using assms by (simp add: discretize_def Let_def nth_append)

text \<open>
  In IEEE arithmetic, the grid \<open>[0, 1]\<close> with the step size \<^verbatim>\<open>1/3\<close>, that is the binary64
  number \<open>6004799503160661 / 2^54\<close>: the binary64 quotient is exactly 3, so there are three
  steps and four points (the real quotient is above 3).
\<close>

theorem discretize_step_size_witness:
  "[Fin 0, Fin 1] \<noteq> []
   \<and> f_less ieee (Fin (6004799503160661 / 18014398509481984))
       (py_sub ieee (last [Fin 0, Fin 1]) (hd [Fin 0, Fin 1]))
   \<and> \<not> f_eq ieee (Fin (6004799503160661 / 18014398509481984)) (f_zero ieee)
   \<and> py_ceil ieee (py_div ieee (py_sub ieee (last [Fin 0, Fin 1]) (hd [Fin 0, Fin 1]))
                     (Fin (6004799503160661 / 18014398509481984))) = Inr 3
   \<and> discretize ieee [Fin 0, Fin 1] (Some (Fin (6004799503160661 / 18014398509481984))) =
       Inr \<lparr>t_discretization =
              [Fin 0, Fin (11184811 / 33554432), Fin (11184811 / 16777216), Fin 1],
            n_steps = 3, t_final = Some (Fin 1)\<rparr>
   \<and> 3 < (1::real) / (6004799503160661 / 18014398509481984)"
proof -
  let ?s = "Fin (6004799503160661 / 18014398509481984)"
  have 1: "[Fin 0, Fin 1] \<noteq> []" by simp
  have 2: "f_less ieee ?s (py_sub ieee (last [Fin 0, Fin 1]) (hd [Fin 0, Fin 1]))"
    by (simp add: ieee_ops rounding)
  have 3: "\<not> f_eq ieee ?s (f_zero ieee)" by (simp add: ieee_ops)
  have 4: "py_ceil ieee (py_div ieee (py_sub ieee (last [Fin 0, Fin 1]) (hd [Fin 0, Fin 1])) ?s)
             = Inr 3"
    by (simp add: ieee_ops rounding)
  have 5: "to_float32 ieee (py_add ieee (Fin 0) (py_mul ieee ?s (py_of_int ieee (int 0)))) = Fin 0"
    "to_float32 ieee (py_add ieee (Fin 0) (py_mul ieee ?s (py_of_int ieee (int 1))))
       = Fin (11184811 / 33554432)"
    "to_float32 ieee (py_add ieee (Fin 0) (py_mul ieee ?s (py_of_int ieee (int 2))))
       = Fin (11184811 / 16777216)"
    "to_float32 ieee (Fin 1) = Fin 1"
    by (simp_all add: ieee_ops rounding)
  from discretize_step_size [OF 1 2 3 4] obtain d
    where d: "discretize ieee [Fin 0, Fin 1] (Some ?s) = Inr d" and n: "n_steps d = 3"
      and tf: "t_final d = Some (Fin 1)" and len: "length (t_discretization d) = 4"
      and pts: "\<forall>i<3. t_discretization d ! i =
                  to_float32 ieee (py_add ieee (Fin 0) (py_mul ieee ?s (py_of_int ieee (int i))))"
      and lst: "last (t_discretization d) = to_float32 ieee (Fin 1)"
    by auto
  from len obtain a b c e where td: "t_discretization d = [a, b, c, e]"
    by (auto simp: length_Suc_conv numeral_eq_Suc)
  from pts have "t_discretization d ! 0 = Fin 0"
    and "t_discretization d ! 1 = Fin (11184811 / 33554432)"
    and "t_discretization d ! 2 = Fin (11184811 / 16777216)"
    using 5 by (simp_all del: of_nat_0 of_nat_1)
  with lst td 5(4) have "t_discretization d =
      [Fin 0, Fin (11184811 / 33554432), Fin (11184811 / 16777216), Fin 1]"
    by simp
  with n tf have "d = \<lparr>t_discretization =
      [Fin 0, Fin (11184811 / 33554432), Fin (11184811 / 16777216), Fin 1],
      n_steps = 3, t_final = Some (Fin 1)\<rparr>"
    by simp
  with d 1 2 3 4 show ?thesis by simp
qed

text \<open>
  C7 as stated fails in two ways. The step size \<open>0\<close> is below \<open>t_final - t_init = 1\<close>, and
  the division of line 172 raises \<^verbatim>\<open>ZeroDivisionError\<close>. The step size \<open>2^-1030\<close> is
  below 1 and not zero, the binary64 quotient overflows to infinity, and \<^verbatim>\<open>math.ceil\<close>
  raises \<^verbatim>\<open>OverflowError\<close>. In both cases there is no discretization.
\<close>

theorem discretize_zero_step_size:
  "f_less ieee (Fin 0) (py_sub ieee (last [Fin 0, Fin 1]) (hd [Fin 0, Fin 1]))
   \<and> discretize ieee [Fin 0, Fin 1] (Some (Fin 0)) = Inl ZeroDivisionError
   \<and> f_less ieee (Fin (1 / 2 ^ 1030)) (py_sub ieee (last [Fin 0, Fin 1]) (hd [Fin 0, Fin 1]))
   \<and> discretize ieee [Fin 0, Fin 1] (Some (Fin (1 / 2 ^ 1030))) = Inl OverflowError"
  using rnd_overflow by (simp add: discretize_def ieee_ops rounding)

section \<open>Properties of the discrete step\<close>

lemma one_hot_Inr:
  "one_hot xs V = Inr hot \<longleftrightarrow>
     list_all (\<lambda>x. x < V) xs \<and> hot = map (\<lambda>x. map (\<lambda>v. if v = x then 1 else 0) [0..<V]) xs"
  by (auto simp: one_hot_def)

lemma map2_same_map: "map2 f (map g xs) (map h xs) = map (\<lambda>x. f (g x) (h x)) xs"
  by (induction xs) simp_all

lemma map2_upt_rows:
  "length p_0 = V \<Longrightarrow>
   map2 f (map g [0..<V]) (map2 k p_0 (map h [0..<V])) =
     map (\<lambda>v. f (g v) (k (p_0 ! v) (h v))) [0..<V]"
  by (rule nth_equalityI) simp_all

lemma compute_u_closed:
  assumes "compute_u A scheduler p df t B V x_1 = Inr u"
  shows "\<exists>f. u = map (\<lambda>x. map (f x) [0..<V]) x_1"
  using assms
  by (auto simp: compute_u_def one_hot_Inr Let_def map2_same_map map2_upt_rows comp_def
      split: prod.splits sum.splits if_splits option.splits)

text \<open>
  C2 (as amended). On a non-final step of a discrete modality, let the divergence-free
  coefficient at that step be the positive number \<open>a\<close>: \<^verbatim>\<open>div_free\<close> is the constant \<open>a\<close>,
  or a callable that returns the float \<open>a\<close> or a tensor with the one element \<open>a\<close>. Let the
  source distribution \<open>p_0\<close> be set. Then the rate \<open>u\<close> before the zeroing of
  self-transitions is, at every coordinate \<open>b\<close> and class \<open>v\<close>, the float32 value of
  \<open>d_k_t / (1 - k_t) * onehot(x_1)\<close> plus
  \<open>c * d_k_t / (k_t * (1 - k_t)) * ((1 - k_t) * p_0 + k_t * onehot(x_1))\<close>, where \<open>c\<close> is
  \<open>a\<close> as a float32; and the zeroing is applied to this \<open>u\<close>. This holds in every
  arithmetic that gives the two quotients \<open>q\<close> and \<open>r\<close>. IEEE arithmetic always does (lemma
  \<open>ieee_t_div\<close>), also for \<open>k_t = 0\<close> and \<open>k_t = 1\<close>, where they are infinite or NaN.
\<close>

theorem compute_u_div_free:
  assumes sch: "scheduler t = (k_t, d_k_t)"
    and dv: "div_free_value df B t = PyFloat a \<and> c = to_float32 A a
             \<or> div_free_value df B t = PyTensor [a] \<and> c = a"
    and pos: "f_less A (f_zero A) a"
    and q: "t_div A d_k_t (t_sub A (f_one A) k_t) = Inr q"
    and r: "t_div A (t_mul A c d_k_t) (t_mul A k_t (t_sub A (f_one A) k_t)) = Inr r"
    and p: "p = Some p_0" "length p_0 = V"
    and x: "list_all (\<lambda>x. x < V) x_1"
    and b: "b < length x_1" and v: "v < V"
  shows "\<exists>u. compute_u A scheduler p df t B V x_1 = Inr u
           \<and> u ! b ! v =
               t_add A (t_mul A q (if v = x_1 ! b then f_one A else f_zero A))
                 (t_mul A r
                    (t_add A (t_mul A (t_sub A (f_one A) k_t) (p_0 ! v))
                       (t_mul A k_t (if v = x_1 ! b then f_one A else f_zero A))))
           \<and> jump_rates A scheduler p df t B V x_1 x_t = zero_self_rate A x_t V u"
proof -
  from dv pos have "positive_coefficient A (div_free_value df B t) = Inr (Some c)"
    by (auto simp: positive_coefficient_def)
  with sch q r p x b v show ?thesis
    by (simp add: compute_u_def jump_rates_def one_hot_def Let_def map2_same_map
        map2_upt_rows comp_def of_bit_def if_distrib)
qed

text \<open>
  In IEEE arithmetic, the first step of a path with \<open>k_t = t\<close>, so \<open>k_t = 0\<close> and
  \<open>d_k_t = 1\<close>, with the constant coefficient 1, the uniform \<open>p_0\<close> on two classes and
  \<open>x_1 = 0\<close>: the second quotient is \<open>1 / 0 = inf\<close> and the rate towards class 0 is
  \<open>1 + inf * 1/2 = inf\<close>.
\<close>

theorem compute_u_div_free_witness:
  "(\<lambda>t. (t, Fin 1)) (Fin 0) = (Fin 0, Fin 1)
   \<and> (div_free_value (Const (Fin 1)) 1 (Fin 0) = PyFloat (Fin 1)
        \<and> Fin 1 = to_float32 ieee (Fin 1)
      \<or> div_free_value (Const (Fin 1)) 1 (Fin 0) = PyTensor [Fin 1] \<and> Fin 1 = Fin 1)
   \<and> f_less ieee (f_zero ieee) (Fin 1)
   \<and> t_div ieee (Fin 1) (t_sub ieee (f_one ieee) (Fin 0)) = Inr (Fin 1)
   \<and> t_div ieee (t_mul ieee (Fin 1) (Fin 1)) (t_mul ieee (Fin 0) (t_sub ieee (f_one ieee) (Fin 0)))
       = Inr PInf
   \<and> list_all (\<lambda>x. x < 2) [0::nat]
   \<and> (\<exists>u. compute_u ieee (\<lambda>t. (t, Fin 1)) (Some [Fin (1 / 2), Fin (1 / 2)]) (Const (Fin 1))
              (Fin 0) 1 2 [0] = Inr u
            \<and> u ! 0 ! 0 = PInf
            \<and> jump_rates ieee (\<lambda>t. (t, Fin 1)) (Some [Fin (1 / 2), Fin (1 / 2)])
                (Const (Fin 1)) (Fin 0) 1 2 [0] [1] = zero_self_rate ieee [1] 2 u)"
proof -
  have 1: "(\<lambda>t. (t, Fin 1)) (Fin 0) = (Fin 0, Fin 1)" by simp
  have 2: "div_free_value (Const (Fin 1)) 1 (Fin 0) = PyFloat (Fin 1)
             \<and> Fin 1 = to_float32 ieee (Fin 1)
           \<or> div_free_value (Const (Fin 1)) 1 (Fin 0) = PyTensor [Fin 1] \<and> Fin 1 = Fin 1"
    by (simp add: div_free_value_def ieee_ops rounding)
  have 3: "f_less ieee (f_zero ieee) (Fin 1)" by (simp add: ieee_ops)
  have 4: "t_div ieee (Fin 1) (t_sub ieee (f_one ieee) (Fin 0)) = Inr (Fin 1)"
    by (simp add: ieee_ops rounding)
  have 5: "t_div ieee (t_mul ieee (Fin 1) (Fin 1))
             (t_mul ieee (Fin 0) (t_sub ieee (f_one ieee) (Fin 0))) = Inr PInf"
    by (simp add: ieee_ops rounding)
  have 6: "Some [Fin (1 / 2), Fin (1 / 2)] = Some [Fin (1 / 2), Fin (1 / 2)]"
    "length [Fin (1 / 2), Fin (1 / 2)] = 2" "list_all (\<lambda>x. x < 2) [0::nat]"
    "0 < length [0::nat]" "(0::nat) < 2"
    by simp_all
  have 7: "t_add ieee (t_mul ieee (Fin 1) (f_one ieee))
             (t_mul ieee PInf
                (t_add ieee (t_mul ieee (t_sub ieee (f_one ieee) (Fin 0)) (Fin (1 / 2)))
                   (t_mul ieee (Fin 0) (f_one ieee)))) = PInf"
    by (simp add: ieee_ops rounding)
  from compute_u_div_free [where scheduler = "\<lambda>t. (t, Fin 1)" and x_t = "[1]", OF 1 2 3 4 5 6]
    1 2 3 4 5 6 7
  show ?thesis by simp
qed

text \<open>
  C2 as stated fails in two ways. A negative coefficient, \<^verbatim>\<open>div_free = -1.0\<close>, is
  nonzero and passes the entry assertion, but line 264 asks for \<^verbatim>\<open>div_free_t > 0\<close>, so
  nothing is added: with \<open>k_t = 1/2\<close> and \<open>d_k_t = 1\<close> the rate towards class 0 stays
  \<open>d_k_t / (1 - k_t) = 2\<close> and is not \<open>2 + (-1) * 4 * (1/4 + 1/2) = -1\<close>. And a callable
  that returns one coefficient for each of the \<open>B = 2\<close> times it is given, all of them
  positive, makes the test of line 264 raise \<^verbatim>\<open>RuntimeError\<close>.
\<close>

theorem compute_u_negative_div_free:
  "compute_u ieee (\<lambda>t. (Fin (1 / 2), Fin 1)) (Some [Fin (1 / 2), Fin (1 / 2)])
     (Const (Fin (- 1))) (Fin 0) 1 2 [0] = Inr [[Fin 2, Fin 0]]
   \<and> t_add ieee (t_mul ieee (Fin 2) (f_one ieee))
       (t_mul ieee (fl_div binary32 (t_mul ieee (Fin (- 1)) (Fin 1))
                      (t_mul ieee (Fin (1 / 2)) (t_sub ieee (f_one ieee) (Fin (1 / 2)))))
          (t_add ieee (t_mul ieee (t_sub ieee (f_one ieee) (Fin (1 / 2))) (Fin (1 / 2)))
             (t_mul ieee (Fin (1 / 2)) (f_one ieee)))) = Fin (- 1)
   \<and> [[Fin 2, Fin 0]] ! 0 ! 0 \<noteq> Fin (- 1)
   \<and> compute_u ieee (\<lambda>t. (Fin (1 / 2), Fin 1)) (Some [Fin (1 / 2), Fin (1 / 2)])
       (Callable (\<lambda>ts. PyTensor (map (\<lambda>t. Fin 1) ts))) (Fin 0) 2 2 [0, 0] = Inl RuntimeError"
proof -
  have "replicate 2 (Fin 0) = [Fin 0, Fin 0]" by (simp add: numeral_2_eq_2)
  then show ?thesis
    by (simp add: compute_u_def one_hot_def positive_coefficient_def div_free_value_def
        of_bit_def upt_rec Let_def ieee_ops rounding)
qed

lemma update_modalities_append:
  "update_modalities A R p df i n t h B outputs (xs @ ys) l w =
     (case update_modalities A R p df i n t h B outputs xs l w of
        (Inl e, w1) \<Rightarrow> (Inl e, w1)
      | (Inr l1, w1) \<Rightarrow> update_modalities A R p df i n t h B outputs ys l1 w1)"
proof (induction xs arbitrary: l w)
  case Nil
  then show ?case by simp
next
  case (Cons x xs)
  obtain idx c where x: "x = (idx, c)" by (cases x)
  show ?case
    by (cases c) (auto simp: x Cons.IH Let_def split: prod.splits sum.splits)
qed

lemma enumerate_split:
  assumes "idx < length cs"
  shows "enumerate 0 cs =
           enumerate 0 (take idx cs) @ (idx, cs ! idx) # enumerate (Suc idx) (drop (Suc idx) cs)"
proof -
  from assms have "cs = take idx cs @ cs ! idx # drop (Suc idx) cs"
    by (simp add: id_take_nth_drop)
  then have "enumerate 0 cs = enumerate 0 (take idx cs @ cs ! idx # drop (Suc idx) cs)"
    by simp
  also have "\<dots> = enumerate 0 (take idx cs)
      @ (idx, cs ! idx) # enumerate (Suc idx) (drop (Suc idx) cs)"
    using assms by (simp add: enumerate_append_eq min_def)
  finally show ?thesis .
qed

lemma apply_update_keeps:
  assumes a: "apply_update j upd l w = (l1, w1)"
    and j: "j \<noteq> idx" "j < length (states l)" and idx: "idx < length (states l)"
    and valid: "\<forall>a \<in> set (states l). a < length (heap w)"
    and sep: "\<forall>k < length (states l). k \<noteq> idx \<longrightarrow> states l ! k \<noteq> states l ! idx"
  shows "states l1 ! idx = states l ! idx"
    and "heap w1 ! (states l ! idx) = heap w ! (states l ! idx)"
    and "length (states l1) = length (states l)"
    and "\<forall>a \<in> set (states l1). a < length (heap w1)"
    and "\<forall>k < length (states l1). k \<noteq> idx \<longrightarrow> states l1 ! k \<noteq> states l1 ! idx"
proof -
  from valid idx have lt: "states l ! idx < length (heap w)" by simp
  have all: "states l1 ! idx = states l ! idx
      \<and> heap w1 ! (states l ! idx) = heap w ! (states l ! idx)
      \<and> length (states l1) = length (states l)
      \<and> (\<forall>a \<in> set (states l1). a < length (heap w1))
      \<and> (\<forall>k < length (states l1). k \<noteq> idx \<longrightarrow> states l1 ! k \<noteq> states l1 ! idx)"
  proof (cases upd)
    case (Rebind v)
    have "set ((states l)[j := length (heap w)]) \<subseteq> insert (length (heap w)) (set (states l))"
      by (rule set_update_subset_insert)
    with valid have v1: "\<forall>a \<in> set ((states l)[j := length (heap w)]). a < Suc (length (heap w))"
      by (fastforce simp: less_Suc_eq)
    have s1: "\<forall>k < length (states l). k \<noteq> idx \<longrightarrow>
            (states l)[j := length (heap w)] ! k \<noteq> states l ! idx"
    proof (intro allI impI)
      fix k
      assume k: "k < length (states l)" "k \<noteq> idx"
      show "(states l)[j := length (heap w)] ! k \<noteq> states l ! idx"
      proof (cases "k = j")
        case True
        with j(2) have "(states l)[j := length (heap w)] ! k = length (heap w)" by simp
        with lt show ?thesis by simp
      next
        case False
        then have "(states l)[j := length (heap w)] ! k = states l ! k" by simp
        with sep k show ?thesis by simp
      qed
    qed
    from a Rebind j lt v1 s1 show ?thesis by (auto simp: apply_update_def nth_append)
  next
    case (Mutate v)
    from sep j have "states l ! j \<noteq> states l ! idx" by simp
    with a Mutate valid sep show ?thesis by (auto simp: apply_update_def)
  qed
  from all show "states l1 ! idx = states l ! idx"
    and "heap w1 ! (states l ! idx) = heap w ! (states l ! idx)"
    and "length (states l1) = length (states l)"
    and "\<forall>a \<in> set (states l1). a < length (heap w1)"
    and "\<forall>k < length (states l1). k \<noteq> idx \<longrightarrow> states l1 ! k \<noteq> states l1 ! idx"
    by blast+
qed

lemma update_modalities_keeps:
  assumes "update_modalities A R p df i n t h B outputs cs l w = (Inr l', w')"
    and "idx \<notin> fst ` set cs" and "idx < length (states l)"
    and "\<forall>a \<in> set (states l). a < length (heap w)"
    and "\<forall>k < length (states l). k \<noteq> idx \<longrightarrow> states l ! k \<noteq> states l ! idx"
  shows "states l' ! idx = states l ! idx \<and> heap w' ! (states l ! idx) = heap w ! (states l ! idx)"
  using assms
proof (induction cs arbitrary: l w)
  case Nil
  then show ?case by simp
next
  case (Cons x cs)
  obtain j cfg where x: "x = (j, cfg)" by (cases x)
  from Cons.prems(2) x have j: "j \<noteq> idx" and rest: "idx \<notin> fst ` set cs" by auto
  from Cons.prems(1) x have rng: "j < length outputs" "j < length (states l)"
    by (auto split: if_splits)
  have "\<exists>upd g1 l1 w1. apply_update j upd l (w\<lparr>gen := g1\<rparr>) = (l1, w1)
          \<and> update_modalities A R p df i n t h B outputs cs l1 w1 = (Inr l', w')"
  proof (cases cfg)
    case Continuous
    with Cons.prems(1) x rng obtain upd l1 w1
      where "apply_update j upd l w = (l1, w1)"
        and "update_modalities A R p df i n t h B outputs cs l1 w1 = (Inr l', w')"
      by (auto simp: Let_def split: sum.splits prod.splits)
    then have "apply_update j upd l (w\<lparr>gen := gen w\<rparr>) = (l1, w1)" by simp
    with \<open>update_modalities A R p df i n t h B outputs cs l1 w1 = (Inr l', w')\<close>
    show ?thesis by blast
  next
    case (Discrete sch)
    with Cons.prems(1) x rng show ?thesis
      by (auto simp: Let_def split: sum.splits prod.splits)
  qed
  then obtain upd g1 l1 w1 where a: "apply_update j upd l (w\<lparr>gen := g1\<rparr>) = (l1, w1)"
    and rec: "update_modalities A R p df i n t h B outputs cs l1 w1 = (Inr l', w')"
    by blast
  from Cons.prems(4) have valid: "\<forall>a \<in> set (states l). a < length (heap (w\<lparr>gen := g1\<rparr>))"
    by simp
  note k = apply_update_keeps [OF a j rng(2) Cons.prems(3) valid Cons.prems(5)]
  from Cons.prems(3) k(3) have "idx < length (states l1)" by simp
  from Cons.IH [OF rec rest this k(4,5)] k(1,2) show ?case by simp
qed

text \<open>
  C4. Let a discrete modality stand at position \<open>idx\<close> of the configurations, and let the
  step be the final one (\<open>i = n_steps - 1\<close>). When the loop over the modalities reaches it,
  with the locals \<open>l\<close> and the world \<open>w\<close> that the modalities before it leave, the discrete
  step returns the categorical draw \<open>x_1\<close> from \<open>softmax(model_output)\<close>, whatever the
  scheduler, the source distribution, the divergence-free coefficient, the time, the step
  size and the old state are; and when the loop over all modalities ends, the state of
  the modality is \<open>x_1\<close>: the modalities after it leave it alone.
\<close>

theorem discrete_step_final:
  assumes fin: "int i = n - 1"
    and cfg: "idx < length cs" "cs ! idx = Discrete scheduler"
    and pre: "update_modalities A R p df i n t h B outputs (enumerate 0 (take idx cs)) l0 w0
                = (Inr l, w)"
    and out: "idx < length outputs" "outputs ! idx = Float2 V rows"
      "list_all (\<lambda>r. length r = V) rows"
    and st: "idx < length (states l)" "\<forall>a \<in> set (states l). a < length (heap w)"
    and draw: "categorical R (map (t_softmax A) rows) (gen w) = (x_1, g1)"
    and all: "update_modalities A R p df i n t h B outputs (enumerate 0 cs) l0 w0 = (Inr l', w')"
  shows "discrete_step A R scheduler' p' df' i n t' h' B' (Float2 V rows) state' (gen w)
           = (Inr (Rebind (Long x_1)), g1)
         \<and> heap w' ! (states l' ! idx) = Long x_1"
proof
  show "discrete_step A R scheduler' p' df' i n t' h' B' (Float2 V rows) state' (gen w)
          = (Inr (Rebind (Long x_1)), g1)"
    using fin out(3) draw by (simp add: discrete_step_def)
next
  let ?rest = "enumerate (Suc idx) (drop (Suc idx) cs)"
  define l1 where "l1 = l\<lparr>states := (states l)[idx := length (heap w)]\<rparr>"
  define w1 where "w1 = w\<lparr>gen := g1, heap := heap w @ [Long x_1]\<rparr>"
  have ds: "discrete_step A R scheduler p df i n t h B (outputs ! idx)
              (heap w ! (states l ! idx)) (gen w) = (Inr (Rebind (Long x_1)), g1)"
    using fin out draw by (simp add: discrete_step_def)
  have "update_modalities A R p df i n t h B outputs (enumerate 0 cs) l0 w0
          = update_modalities A R p df i n t h B outputs ((idx, Discrete scheduler) # ?rest) l w"
    using cfg pre by (simp add: enumerate_split [OF cfg(1)] update_modalities_append)
  also have "\<dots> = update_modalities A R p df i n t h B outputs ?rest l1 w1"
    using out(1) st(1) ds by (simp add: apply_update_def l1_def w1_def)
  finally have rec: "update_modalities A R p df i n t h B outputs ?rest l1 w1 = (Inr l', w')"
    using all by simp
  have notin: "idx \<notin> fst ` set ?rest" by (auto simp: in_set_enumerate_eq)
  have len: "idx < length (states l1)" using st(1) by (simp add: l1_def)
  have "set ((states l)[idx := length (heap w)]) \<subseteq> insert (length (heap w)) (set (states l))"
    by (rule set_update_subset_insert)
  with st(2) have valid: "\<forall>a \<in> set (states l1). a < length (heap w1)"
    by (fastforce simp: l1_def w1_def less_Suc_eq)
  have sep: "\<forall>k < length (states l1). k \<noteq> idx \<longrightarrow> states l1 ! k \<noteq> states l1 ! idx"
  proof (intro allI impI)
    fix k
    assume k: "k < length (states l1)" "k \<noteq> idx"
    then have "states l ! k \<in> set (states l)" by (simp add: l1_def)
    with st(2) have "states l ! k < length (heap w)" by simp
    with k st(1) show "states l1 ! k \<noteq> states l1 ! idx" by (simp add: l1_def)
  qed
  from update_modalities_keeps [OF rec notin len valid sep]
  have "states l' ! idx = states l1 ! idx" and "heap w' ! (states l1 ! idx) = heap w1 ! (states l1 ! idx)"
    by simp_all
  moreover have "states l1 ! idx = length (heap w)" using st(1) by (simp add: l1_def)
  moreover have "heap w1 ! length (heap w) = Long x_1" by (simp add: w1_def)
  ultimately show "heap w' ! (states l' ! idx) = Long x_1" by simp
qed

text \<open>
  In IEEE arithmetic: three modalities, the discrete one in the middle, one step in all
  (\<open>i = 0\<close>, \<open>n_steps = 1\<close>), logits \<open>[0, 0]\<close>, a sampler that always draws class 1, and a
  scheduler with \<open>k_t = 1\<close>, for which the rates would be infinite if they were computed.
\<close>

theorem discrete_step_final_witness:
  "update_modalities ieee \<lparr>multinomial = (\<lambda>p g. (1, g)), uniform = (\<lambda>g. (Fin 0, g))\<rparr> None
     (Const (Fin 0)) 0 1 (Fin 0) (Fin 1) 1
     [Float [Fin 1], Float2 2 [[Fin 0, Fin 0]], Float [Fin 1]]
     (enumerate 0 [Continuous, Discrete (\<lambda>t. (Fin 1, Fin 1)), Continuous])
     \<lparr>states = [0, 1, 2], intermediates = [], steps_counter = 0\<rparr>
     \<lparr>heap = [Float [Fin 0], Long [0], Float [Fin 0]], gen = (), display = []\<rparr>
   = (Inr \<lparr>states = [3, 4, 5], intermediates = [], steps_counter = 0\<rparr>,
      \<lparr>heap = [Float [Fin 0], Long [0], Float [Fin 0], Float [Fin 1], Long [1], Float [Fin 1]],
        gen = (), display = []\<rparr>)
   \<and> discrete_step ieee \<lparr>multinomial = (\<lambda>p g. (1, g)), uniform = (\<lambda>g. (Fin 0, g))\<rparr>
       (\<lambda>t. (Fin 1, Fin 1)) None (Const (Fin 0)) 0 1 (Fin 0) (Fin 1) 1
       (Float2 2 [[Fin 0, Fin 0]]) (Long [0]) ()
     = (Inr (Rebind (Long [1])), ())
   \<and> [Float [Fin 0], Long [0], Float [Fin 0], Float [Fin 1], Long [1], Float [Fin 1]]
       ! ([3, 4, 5] ! 1) = Long [1]"
proof -
  let ?R = "\<lparr>multinomial = (\<lambda>p (g::unit). (1::nat, g)), uniform = (\<lambda>g::unit. (Fin 0, g))\<rparr>"
  let ?cs = "[Continuous, Discrete (\<lambda>t. (Fin 1, Fin 1)), Continuous]"
  let ?outputs = "[Float [Fin 1], Float2 2 [[Fin 0, Fin 0]], Float [Fin 1]]"
  let ?li = "\<lparr>states = [0, 1, 2], intermediates = [], steps_counter = 0\<rparr>"
  let ?wi = "\<lparr>heap = [Float [Fin 0], Long [0], Float [Fin 0]], gen = (), display = []\<rparr>"
  let ?l = "\<lparr>states = [3, 1, 2], intermediates = [], steps_counter = 0\<rparr>"
  let ?w = "\<lparr>heap = [Float [Fin 0], Long [0], Float [Fin 0], Float [Fin 1]], gen = (),
             display = []\<rparr>"
  let ?l' = "\<lparr>states = [3, 4, 5], intermediates = [], steps_counter = 0\<rparr>"
  let ?w' = "\<lparr>heap = [Float [Fin 0], Long [0], Float [Fin 0], Float [Fin 1], Long [1],
                      Float [Fin 1]], gen = (), display = []\<rparr>"
  have 1: "int 0 = 1 - 1" by simp
  have 2: "1 < length ?cs" "?cs ! 1 = Discrete (\<lambda>t. (Fin 1, Fin 1))" by simp_all
  have 3: "update_modalities ieee ?R None (Const (Fin 0)) 0 1 (Fin 0) (Fin 1) 1 ?outputs
             (enumerate 0 (take 1 ?cs)) ?li ?wi = (Inr ?l, ?w)"
    by (simp add: continuous_step_def apply_update_def ieee_ops rounding)
  have 4: "1 < length ?outputs" "?outputs ! 1 = Float2 2 [[Fin 0, Fin 0]]"
    "list_all (\<lambda>r. length r = 2) [[Fin 0, Fin 0]]"
    by simp_all
  have 5: "1 < length (states ?l)" "\<forall>a \<in> set (states ?l). a < length (heap ?w)" by simp_all
  have 6: "categorical ?R (map (t_softmax ieee) [[Fin 0, Fin 0]]) (gen ?w) = ([1], ())" by simp
  have 7: "update_modalities ieee ?R None (Const (Fin 0)) 0 1 (Fin 0) (Fin 1) 1 ?outputs
             (enumerate 0 ?cs) ?li ?wi = (Inr ?l', ?w')"
    by (simp add: continuous_step_def discrete_step_def apply_update_def ieee_ops rounding)
  from discrete_step_final [OF 1 2 3 4 5 6 7,
      of "\<lambda>t. (Fin 1, Fin 1)" None "Const (Fin 0)" "Fin 0" "Fin 1" 1 "Long [0]"] 7
  show ?thesis by simp
qed

lemma zero_self_rate_row:
  assumes z: "zero_self_rate A x_t V (map (\<lambda>x. map (f x) [0..<V]) x_1) = Inr u"
    and b: "b < length x_t"
  shows "x_t ! b < V
         \<and> u ! b = map (\<lambda>v. if v = x_t ! b then f_zero A else f (x_1 ! b) v) [0..<V]"
proof -
  from z have len: "length x_t = length x_1" and all: "list_all (\<lambda>x. x < V) x_t"
    and u: "u = map2 (\<lambda>d_row u_row. map2 (\<lambda>d r. if d \<noteq> 0 then f_zero A else r) d_row u_row)
                  (map (\<lambda>x. map (\<lambda>v. if v = x then 1 else (0::nat)) [0..<V]) x_t)
                  (map (\<lambda>x. map (f x) [0..<V]) x_1)"
    by (auto simp: zero_self_rate_def one_hot_Inr split: sum.splits if_splits)
  from all b have "x_t ! b < V" by (simp add: list_all_length)
  moreover from b len
  have "u ! b = map (\<lambda>v. if v = x_t ! b then f_zero A else f (x_1 ! b) v) [0..<V]"
    by (simp add: u map2_same_map)
  ultimately show ?thesis by simp
qed

lemma jump_rates_row:
  assumes "jump_rates A scheduler p df t B V x_1 x_t = Inr u" and "b < length x_t"
  shows "\<exists>g. x_t ! b < V \<and> u ! b = map (\<lambda>v. if v = x_t ! b then f_zero A else g v) [0..<V]"
proof -
  from assms(1) obtain u0 where c: "compute_u A scheduler p df t B V x_1 = Inr u0"
    and z: "zero_self_rate A x_t V u0 = Inr u"
    by (auto simp: jump_rates_def split: sum.splits)
  from compute_u_closed [OF c] obtain f where "u0 = map (\<lambda>x. map (f x) [0..<V]) x_1" ..
  with z assms(2) show ?thesis using zero_self_rate_row by blast
qed

text \<open>
  C5. On a non-final step of a discrete modality the rates \<open>u\<close> after zeroing are exactly
  zero at the class each coordinate currently holds, in every arithmetic and whatever the
  rates were before, infinite or NaN included: no coordinate has a positive rate towards
  its own value. In exact arithmetic, moreover, the intensity of a coordinate is the sum
  of its rates towards the other classes.
\<close>

theorem jump_rates_self_zero:
  assumes "b < length x_t"
  shows "(jump_rates A scheduler p df t B V x_1 x_t = Inr u \<longrightarrow> u ! b ! (x_t ! b) = f_zero A)
         \<and> (jump_rates exact scheduler' p' df' t' B V x_1 x_t = Inr u' \<longrightarrow>
              u' ! b ! (x_t ! b) = 0
              \<and> sum_list (u' ! b) = (\<Sum>v \<in> {0..<V} - {x_t ! b}. u' ! b ! v))"
proof (intro conjI impI)
  assume "jump_rates A scheduler p df t B V x_1 x_t = Inr u"
  from jump_rates_row [OF this assms] show "u ! b ! (x_t ! b) = f_zero A" by auto
next
  assume j: "jump_rates exact scheduler' p' df' t' B V x_1 x_t = Inr u'"
  have z: "f_zero exact = 0" by (simp add: exact_def)
  from jump_rates_row [OF j assms] obtain g where lt: "x_t ! b < V"
    and row: "u' ! b = map (\<lambda>v. if v = x_t ! b then 0 else g v) [0..<V]"
    unfolding z by blast
  from lt show zero: "u' ! b ! (x_t ! b) = 0" by (simp add: row)
  have "sum_list (u' ! b) = (\<Sum>v \<in> {0..<V}. u' ! b ! v)"
    by (simp add: row sum_list_sum_nth atLeast0LessThan)
  also have "\<dots> = (\<Sum>v \<in> {0..<V} - {x_t ! b}. u' ! b ! v)"
    using zero by (simp add: sum.remove [of _ "x_t ! b"] lt)
  finally show "sum_list (u' ! b) = (\<Sum>v \<in> {0..<V} - {x_t ! b}. u' ! b ! v)" .
qed

text \<open>
  A coordinate in class 0 with \<open>x_1 = 0\<close>, \<open>k_t = 1/2\<close> and \<open>d_k_t = 1\<close>: before zeroing its
  rate towards class 0 is \<open>d_k_t / (1 - k_t) = 2\<close>, afterwards the whole row is 0, in IEEE
  arithmetic and in exact arithmetic.
\<close>

theorem jump_rates_self_zero_witness:
  "(0::nat) < length [0::nat]
   \<and> jump_rates ieee (\<lambda>t. (Fin (1 / 2), Fin 1)) None (Const (Fin 0)) (Fin 0) 1 2 [0] [0]
       = Inr [[Fin 0, Fin 0]]
   \<and> [[Fin 0, Fin 0]] ! 0 ! ([0::nat] ! 0) = f_zero ieee
   \<and> jump_rates exact (\<lambda>t. (1 / 2, 1)) None (Const 0) 0 1 2 [0] [0] = Inr [[0, 0]]
   \<and> [[0, 0 :: real]] ! 0 ! ([0::nat] ! 0) = 0"
proof -
  have 1: "(0::nat) < length [0::nat]" by simp
  have 2: "jump_rates ieee (\<lambda>t. (Fin (1 / 2), Fin 1)) None (Const (Fin 0)) (Fin 0) 1 2 [0] [0]
             = Inr [[Fin 0, Fin 0]]"
    by (simp add: jump_rates_def compute_u_def zero_self_rate_def one_hot_def
        positive_coefficient_def div_free_value_def of_bit_def upt_rec Let_def ieee_ops rounding)
  have 3: "jump_rates exact (\<lambda>t. (1 / 2, 1)) None (Const 0) 0 1 2 [0] [0] = Inr [[0, 0]]"
    by (simp add: jump_rates_def compute_u_def zero_self_rate_def one_hot_def
        positive_coefficient_def div_free_value_def of_bit_def upt_rec Let_def exact_def)
  from jump_rates_self_zero [OF 1, of ieee "\<lambda>t. (Fin (1 / 2), Fin 1)" None "Const (Fin 0)"
      "Fin 0" 1 2 "[0]" "[[Fin 0, Fin 0]]" "\<lambda>t. (1 / 2, 1)" None "Const 0" 0 "[[0, 0]]"] 1 2 3
  show ?thesis by simp
qed

section \<open>Properties of the loop\<close>

lemma loop_append:
  "loop A R S df ri eg vb B td n grid (xs @ ys) l w =
     (case loop A R S df ri eg vb B td n grid xs l w of
        (Inl e, w1) \<Rightarrow> (Inl e, w1)
      | (Inr l1, w1) \<Rightarrow> loop A R S df ri eg vb B td n grid ys l1 w1)"
  by (induction xs arbitrary: l w) (auto split: prod.splits sum.splits)

text \<open>
  C9. If, after the steps \<open>pre\<close>, the model returns at step \<open>i\<close> something that is no
  sequence, or a sequence whose length is not the number of modalities, then that
  iteration raises \<^verbatim>\<open>TypeError\<close> and leaves heap, generator and display as they were
  after the preceding step; the loop ends there, and no later step runs.
\<close>

theorem loop_contract_violation:
  assumes pre: "loop A R S df ri eg vb B td n grid pre l0 w0 = (Inr l, w)"
    and out: "model S (values_of (heap w) (states l)) (td ! i) = out"
    and bad: "out = NonSeq \<or> (\<exists>ts. out = Seq ts \<and> length ts \<noteq> length (states l))"
  shows "step A R S df ri eg vb B td n grid i l w = (Inl TypeError, w)
         \<and> loop A R S df ri eg vb B td n grid (pre @ i # rest) l0 w0 = (Inl TypeError, w)"
proof -
  from out bad have s: "step A R S df ri eg vb B td n grid i l w = (Inl TypeError, w)"
    by (auto simp: step_def Let_def)
  then show ?thesis by (simp add: loop_append pre)
qed


text \<open>A model that returns no sequence, called at the first step, in IEEE arithmetic.\<close>

theorem loop_contract_violation_witness:
  "loop ieee \<lparr>multinomial = (\<lambda>p g. (0, g)), uniform = (\<lambda>g. (Fin 0, g))\<rparr>
     \<lparr>model = (\<lambda>xs t. NonSeq), modality_configs = [Continuous], source_distribution_p = None\<rparr>
     (Const (Fin 0)) False False False 1 [Fin 0, Fin (1 / 2), Fin 1] 2 [Fin 0, Fin 1]
     ([] @ 0 # [1])
     \<lparr>states = [1], intermediates = [], steps_counter = 0\<rparr>
     \<lparr>heap = [Float [Fin 0], Float [Fin 0]], gen = (), display = []\<rparr>
   = (Inl TypeError, \<lparr>heap = [Float [Fin 0], Float [Fin 0]], gen = (), display = []\<rparr>)"
proof -
  let ?R = "\<lparr>multinomial = (\<lambda>p (g::unit). (0::nat, g)), uniform = (\<lambda>g::unit. (Fin 0, g))\<rparr>"
  let ?S = "\<lparr>model = (\<lambda>xs t. NonSeq), modality_configs = [Continuous],
             source_distribution_p = None\<rparr>"
  let ?l = "\<lparr>states = [1], intermediates = [], steps_counter = 0\<rparr>"
  let ?w = "\<lparr>heap = [Float [Fin 0], Float [Fin 0]], gen = (), display = []\<rparr>"
  have 1: "loop ieee ?R ?S (Const (Fin 0)) False False False 1 [Fin 0, Fin (1 / 2), Fin 1] 2
             [Fin 0, Fin 1] [] ?l ?w = (Inr ?l, ?w)"
    by simp
  have 2: "model ?S (values_of (heap ?w) (states ?l)) ([Fin 0, Fin (1 / 2), Fin 1] ! 0) = NonSeq"
    by simp
  have 3: "NonSeq = NonSeq \<or> (\<exists>ts. NonSeq = Seq ts \<and> length ts \<noteq> length (states ?l))"
    by simp
  from loop_contract_violation [OF 1 2 3, of "[1]"] show ?thesis by simp
qed

section \<open>Indices stay in range\<close>

text \<open>
  The loop reads \<open>t_discretization\<close> at \<open>i\<close> and \<open>i + 1\<close> for \<open>i < n_steps\<close>, and the heap
  at the addresses held in \<open>states\<close>. Both are in range: the discretization has
  \<open>n_steps + 1\<close> points, the initial states are the checked addresses of \<open>x_init\<close> or
  clones of them, and every later state is the address of an allocation.
\<close>

lemma discretize_length:
  assumes "discretize A time_grid step_size = Inr d" and "i < nat (n_steps d)"
  shows "i + 1 < length (t_discretization d)"
  using assms
  by (cases step_size) (auto simp: discretize_def Let_def split: if_splits sum.splits)

lemma clone_all_valid:
  assumes "clone_all eg xs hp = (as, hp1)" and "\<forall>a \<in> set xs. a < length hp"
  shows "length hp \<le> length hp1 \<and> (\<forall>a \<in> set as. a < length hp1)"
  using assms
proof (induction xs arbitrary: hp as)
  case Nil
  then show ?case by simp
next
  case (Cons x xs)
  show ?case
  proof (cases eg)
    case True
    with Cons.prems(1) obtain bs where c: "clone_all eg xs hp = (bs, hp1)" and as: "as = x # bs"
      by (auto split: prod.splits)
    from Cons.IH [OF c] Cons.prems(2) as show ?thesis by auto
  next
    case False
    with Cons.prems(1) obtain bs where c: "clone_all eg xs (hp @ [hp ! x]) = (bs, hp1)"
      and as: "as = length hp # bs"
      by (auto split: prod.splits)
    from Cons.prems(2) have "\<forall>a \<in> set xs. a < length (hp @ [hp ! x])" by auto
    from Cons.IH [OF c this] as show ?thesis by auto
  qed
qed

lemma apply_update_valid:
  assumes "apply_update idx upd l w = (l', w')"
    and "\<forall>a \<in> set (states l). a < length (heap w)"
  shows "length (heap w) \<le> length (heap w') \<and> (\<forall>a \<in> set (states l'). a < length (heap w'))"
proof (cases upd)
  case (Rebind v)
  have "set ((states l)[idx := length (heap w)]) \<subseteq> insert (length (heap w)) (set (states l))"
    by (rule set_update_subset_insert)
  with assms(2) have "\<forall>a \<in> set ((states l)[idx := length (heap w)]). a < Suc (length (heap w))"
    by (fastforce simp: less_Suc_eq)
  with assms(1) Rebind show ?thesis by (auto simp: apply_update_def)
next
  case (Mutate v)
  with assms show ?thesis by (auto simp: apply_update_def)
qed

lemma update_modalities_valid:
  assumes "update_modalities A R p df i k t h B outputs cs l w = (r, w')"
    and "\<forall>a \<in> set (states l). a < length (heap w)"
  shows "length (heap w) \<le> length (heap w')
         \<and> (case r of Inl e \<Rightarrow> True | Inr l' \<Rightarrow> \<forall>a \<in> set (states l'). a < length (heap w'))"
  using assms
proof (induction cs arbitrary: l w)
  case Nil
  then show ?case by auto
next
  case (Cons c cs)
  obtain idx cfg where c: "c = (idx, cfg)" by (cases c)
  show ?case
  proof (cases "idx < length outputs \<and> idx < length (states l)")
    case False
    with Cons.prems c show ?thesis by auto
  next
    case True
    show ?thesis
    proof (cases cfg)
      case Continuous
      show ?thesis
      proof (cases "continuous_step A h (outputs ! idx) (heap w ! (states l ! idx))")
        case (Inl e)
        with Cons.prems c True Continuous show ?thesis by auto
      next
        case (Inr upd)
        obtain l1 w1 where a: "apply_update idx upd l w = (l1, w1)" by fastforce
        with Cons.prems(1) c True Continuous Inr
        have rec: "update_modalities A R p df i k t h B outputs cs l1 w1 = (r, w')" by simp
        from apply_update_valid [OF a Cons.prems(2)]
        have f: "length (heap w) \<le> length (heap w1)"
          "\<forall>a \<in> set (states l1). a < length (heap w1)" by simp_all
        from Cons.IH [OF rec f(2)] f(1) show ?thesis by auto
      qed
    next
      case (Discrete sch)
      obtain res g1 where d: "discrete_step A R sch p df i k t h B (outputs ! idx)
          (heap w ! (states l ! idx)) (gen w) = (res, g1)" by fastforce
      show ?thesis
      proof (cases res)
        case (Inl e)
        with Cons.prems c True Discrete d show ?thesis by auto
      next
        case (Inr upd)
        obtain l1 w1 where a: "apply_update idx upd l (w\<lparr>gen := g1\<rparr>) = (l1, w1)" by fastforce
        with Cons.prems(1) c True Discrete Inr d
        have rec: "update_modalities A R p df i k t h B outputs cs l1 w1 = (r, w')" by simp
        from apply_update_valid [OF a] Cons.prems(2)
        have f: "length (heap w) \<le> length (heap w1)"
          "\<forall>a \<in> set (states l1). a < length (heap w1)" by simp_all
        from Cons.IH [OF rec f(2)] f(1) show ?thesis by auto
      qed
    qed
  qed
qed

lemma record_intermediates_valid:
  assumes "record_intermediates A eg B t grid idxs l w = (r, w')"
  shows "length (heap w) \<le> length (heap w')
         \<and> (case r of Inl e \<Rightarrow> True | Inr l' \<Rightarrow> states l' = states l)"
  using assms
proof (induction idxs arbitrary: l w)
  case Nil
  then show ?case by auto
next
  case (Cons idx idxs)
  show ?case
  proof (cases "contains A B t grid")
    case (Inl e)
    with Cons.prems show ?thesis by auto
  next
    case (Inr b)
    show ?thesis
    proof (cases b)
      case False
      with Cons.prems Inr
      have "record_intermediates A eg B t grid idxs l w = (r, w')" by simp
      from Cons.IH [OF this] show ?thesis .
    next
      case True
      show ?thesis
      proof (cases "idx < length (intermediates l)")
        case False
        with Cons.prems Inr True have "r = Inl IndexError" and "w' = w"
          by (simp_all add: Let_def)
        then show ?thesis by simp
      next
        case inrange: True
        show ?thesis
        proof (cases eg)
          case eg: True
          define l1 where "l1 = l\<lparr>intermediates :=
                (intermediates l)[idx := intermediates l ! idx @ [states l ! idx]]\<rparr>"
          from Cons.prems Inr True inrange eg
          have "record_intermediates A eg B t grid idxs l1 w = (r, w')"
            by (simp add: Let_def l1_def)
          from Cons.IH [OF this] show ?thesis by (auto simp: l1_def split: sum.splits)
        next
          case eg: False
          define l1 where "l1 = l\<lparr>intermediates :=
                (intermediates l)[idx := intermediates l ! idx @ [length (heap w)]]\<rparr>"
          define w1 where "w1 = w\<lparr>heap := heap w @ [heap w ! (states l ! idx)]\<rparr>"
          from Cons.prems Inr True inrange eg
          have "record_intermediates A eg B t grid idxs l1 w1 = (r, w')"
            by (simp add: Let_def l1_def w1_def)
          from Cons.IH [OF this] show ?thesis by (auto simp: l1_def w1_def split: sum.splits)
        qed
      qed
    qed
  qed
qed

lemma step_valid:
  assumes st: "step A R S df ri eg vb B td k grid i l w = (r, w')"
    and v: "\<forall>a \<in> set (states l). a < length (heap w)"
  shows "length (heap w) \<le> length (heap w')
         \<and> (case r of Inl e \<Rightarrow> True | Inr l' \<Rightarrow> \<forall>a \<in> set (states l'). a < length (heap w'))"
proof (cases "model S (values_of (heap w) (states l)) (td ! i)")
  case NonSeq
  with st show ?thesis by (auto simp: step_def Let_def)
next
  case (Seq outputs)
  show ?thesis
  proof (cases "length outputs \<noteq> length (states l)")
    case True
    with st Seq show ?thesis by (auto simp: step_def Let_def)
  next
    case False
    obtain r1 w1 where um: "update_modalities A R (source_distribution_p S) df i k (td ! i)
        (t_sub A (td ! (i + 1)) (td ! i)) B outputs (enumerate 0 (modality_configs S)) l w = (r1, w1)"
      by fastforce
    from update_modalities_valid [OF um v]
    have f1: "length (heap w) \<le> length (heap w1)"
      "case r1 of Inl e \<Rightarrow> True | Inr l' \<Rightarrow> \<forall>a \<in> set (states l'). a < length (heap w1)"
      by simp_all
    show ?thesis
    proof (cases r1)
      case (Inl e)
      with st Seq False um have "r = Inl e" and "w' = w1"
        by (simp_all add: step_def Let_def)
      with f1 show ?thesis by simp
    next
      case (Inr l1)
      define l2 where "l2 = l1\<lparr>steps_counter := steps_counter l1 + 1\<rparr>"
      have l2: "states l2 = states l1" by (simp add: l2_def)
      from f1 Inr have v1: "\<forall>a \<in> set (states l1). a < length (heap w1)" by simp
      show ?thesis
      proof (cases ri)
        case False
        with st Seq \<open>\<not> length outputs \<noteq> length (states l)\<close> um Inr
        have "heap w' = heap w1" and "case r of Inl e \<Rightarrow> True | Inr l' \<Rightarrow> states l' = states l1"
          by (auto simp: step_def Let_def split: if_splits option.splits)
        with f1 v1 show ?thesis by (auto split: sum.splits)
      next
        case True
        obtain r2 w2 where rec: "record_intermediates A eg B (t_add A (td ! i) (t_sub A (td ! (i + 1)) (td ! i)))
            grid [0..<length (states l2)] l2 w1 = (r2, w2)"
          by fastforce
        from record_intermediates_valid [OF rec]
        have f2: "length (heap w1) \<le> length (heap w2)"
          "case r2 of Inl e \<Rightarrow> True | Inr l' \<Rightarrow> states l' = states l2"
          by simp_all
        from st Seq \<open>\<not> length outputs \<noteq> length (states l)\<close> um Inr True rec
        have "heap w' = heap w2"
          and "case r of Inl e \<Rightarrow> True
               | Inr l' \<Rightarrow> (case r2 of Inl e \<Rightarrow> False | Inr l3 \<Rightarrow> l' = l3)"
          unfolding step_def Let_def l2_def
          by (auto split: sum.splits if_splits option.splits)
        with f1 f2 v1 l2 show ?thesis by (fastforce split: sum.splits)
      qed
    qed
  qed
qed

lemma loop_valid:
  assumes "loop A R S df ri eg vb B td k grid is l w = (r, w')"
    and "\<forall>a \<in> set (states l). a < length (heap w)"
  shows "length (heap w) \<le> length (heap w')
         \<and> (case r of Inl e \<Rightarrow> True | Inr l' \<Rightarrow> \<forall>a \<in> set (states l'). a < length (heap w'))"
  using assms
proof (induction "is" arbitrary: l w)
  case Nil
  then show ?case by auto
next
  case (Cons i "is")
  obtain r1 w1 where st: "step A R S df ri eg vb B td k grid i l w = (r1, w1)" by fastforce
  from step_valid [OF st Cons.prems(2)]
  have f: "length (heap w) \<le> length (heap w1)"
    "case r1 of Inl e \<Rightarrow> True | Inr l' \<Rightarrow> \<forall>a \<in> set (states l'). a < length (heap w1)"
    by simp_all
  show ?case
  proof (cases r1)
    case (Inl e)
    with Cons.prems(1) st have "w' = w1" and "r = Inl e" by simp_all
    with f show ?thesis by simp
  next
    case (Inr l1)
    with Cons.prems(1) st
    have rec: "loop A R S df ri eg vb B td k grid is l1 w1 = (r, w')" by simp
    from f Inr have "\<forall>a \<in> set (states l1). a < length (heap w1)" by simp
    from Cons.IH [OF rec this] f(1) show ?thesis by auto
  qed
qed

section \<open>The caller's tensors\<close>

lemma clone_all_frame:
  assumes "clone_all False xs hp = (as, hp1)" and "n \<le> length hp"
  shows "take n hp1 = take n hp \<and> length hp \<le> length hp1 \<and> length as = length xs
         \<and> (\<forall>a \<in> set as. length hp \<le> a \<and> a < length hp1)"
  using assms
proof (induction xs arbitrary: hp as)
  case Nil
  then show ?case by simp
next
  case (Cons x xs)
  from Cons.prems(1) obtain bs where c: "clone_all False xs (hp @ [hp ! x]) = (bs, hp1)"
    and as: "as = length hp # bs"
    by (auto split: prod.splits)
  from Cons.IH [OF c] Cons.prems(2)
  have "take n hp1 = take n (hp @ [hp ! x])" and "length (hp @ [hp ! x]) \<le> length hp1"
    and "length bs = length xs"
    and "\<forall>a \<in> set bs. length (hp @ [hp ! x]) \<le> a \<and> a < length hp1"
    by simp_all
  with Cons.prems(2) as show ?case by auto
qed

lemma apply_update_frame:
  assumes "apply_update idx upd l w = (l', w')"
    and "n \<le> length (heap w)" and "\<forall>a \<in> set (states l). n \<le> a" and "idx < length (states l)"
  shows "take n (heap w') = take n (heap w) \<and> length (heap w) \<le> length (heap w')
         \<and> (\<forall>a \<in> set (states l'). n \<le> a)"
proof (cases upd)
  case (Rebind v)
  with assms show ?thesis
    by (auto simp: apply_update_def dest!: set_update_subset_insert [THEN subsetD])
next
  case (Mutate v)
  with assms have "n \<le> states l ! idx" by simp
  with Mutate assms show ?thesis
    by (auto simp: apply_update_def)
qed

lemma update_modalities_frame:
  assumes "update_modalities A R p df i k t h B outputs cs l w = (r, w')"
    and "n \<le> length (heap w)" and "\<forall>a \<in> set (states l). n \<le> a"
  shows "take n (heap w') = take n (heap w) \<and> length (heap w) \<le> length (heap w')
         \<and> (case r of Inl e \<Rightarrow> True | Inr l' \<Rightarrow> \<forall>a \<in> set (states l'). n \<le> a)"
  using assms
proof (induction cs arbitrary: l w)
  case Nil
  then show ?case by auto
next
  case (Cons c cs)
  obtain idx cfg where c: "c = (idx, cfg)" by (cases c)
  show ?case
  proof (cases "idx < length outputs \<and> idx < length (states l)")
    case False
    with Cons.prems c show ?thesis by auto
  next
    case True
    show ?thesis
    proof (cases cfg)
      case Continuous
      show ?thesis
      proof (cases "continuous_step A h (outputs ! idx) (heap w ! (states l ! idx))")
        case (Inl e)
        with Cons.prems c True Continuous show ?thesis by auto
      next
        case (Inr upd)
        obtain l1 w1 where a: "apply_update idx upd l w = (l1, w1)" by fastforce
        with Cons.prems(1) c True Continuous Inr
        have rec: "update_modalities A R p df i k t h B outputs cs l1 w1 = (r, w')" by simp
        from apply_update_frame [OF a Cons.prems(2,3)] True
        have f: "take n (heap w1) = take n (heap w)" "length (heap w) \<le> length (heap w1)"
          "\<forall>a \<in> set (states l1). n \<le> a" by simp_all
        from Cons.IH [OF rec] f Cons.prems(2) show ?thesis by auto
      qed
    next
      case (Discrete sch)
      obtain res g1 where d: "discrete_step A R sch p df i k t h B (outputs ! idx)
          (heap w ! (states l ! idx)) (gen w) = (res, g1)" by fastforce
      show ?thesis
      proof (cases res)
        case (Inl e)
        with Cons.prems c True Discrete d show ?thesis by auto
      next
        case (Inr upd)
        obtain l1 w1 where a: "apply_update idx upd l (w\<lparr>gen := g1\<rparr>) = (l1, w1)" by fastforce
        with Cons.prems(1) c True Discrete Inr d
        have rec: "update_modalities A R p df i k t h B outputs cs l1 w1 = (r, w')" by simp
        from apply_update_frame [OF a, of n] Cons.prems(2,3) True
        have f: "take n (heap w1) = take n (heap w)" "length (heap w) \<le> length (heap w1)"
          "\<forall>a \<in> set (states l1). n \<le> a" by simp_all
        from Cons.IH [OF rec] f Cons.prems(2) show ?thesis by auto
      qed
    qed
  qed
qed

lemma record_intermediates_frame:
  assumes "record_intermediates A False B t grid idxs l w = (r, w')"
    and "n \<le> length (heap w)"
  shows "take n (heap w') = take n (heap w) \<and> length (heap w) \<le> length (heap w')
         \<and> (case r of Inl e \<Rightarrow> True | Inr l' \<Rightarrow> states l' = states l)"
  using assms
proof (induction idxs arbitrary: l w)
  case Nil
  then show ?case by auto
next
  case (Cons idx idxs)
  show ?case
  proof (cases "contains A B t grid")
    case (Inl e)
    with Cons.prems show ?thesis by auto
  next
    case (Inr b)
    show ?thesis
    proof (cases b)
      case False
      with Cons.prems(1) Inr
      have rec: "record_intermediates A False B t grid idxs l w = (r, w')" by simp
      from Cons.IH [OF rec Cons.prems(2)] show ?thesis .
    next
      case True
      show ?thesis
      proof (cases "idx < length (intermediates l)")
        case False
        with Cons.prems Inr True show ?thesis by (auto simp: Let_def)
      next
        case inrange: True
        let ?l1 = "l\<lparr>intermediates :=
                       (intermediates l)[idx := intermediates l ! idx @ [length (heap w)]]\<rparr>"
        let ?w1 = "w\<lparr>heap := heap w @ [heap w ! (states l ! idx)]\<rparr>"
        from Cons.prems(1) Inr True inrange
        have rec: "record_intermediates A False B t grid idxs ?l1 ?w1 = (r, w')"
          by (simp add: Let_def)
        from Cons.IH [OF rec] Cons.prems(2) show ?thesis by (auto split: sum.splits)
      qed
    qed
  qed
qed


lemma step_frame:
  assumes "step A R S df ri False vb B td k grid i l w = (r, w')"
    and "n \<le> length (heap w)" and "\<forall>a \<in> set (states l). n \<le> a"
  shows "take n (heap w') = take n (heap w) \<and> length (heap w) \<le> length (heap w')
         \<and> (case r of Inl e \<Rightarrow> True | Inr l' \<Rightarrow> \<forall>a \<in> set (states l'). n \<le> a)"
proof (cases "model S (values_of (heap w) (states l)) (td ! i)")
  case NonSeq
  with assms(1) show ?thesis by (auto simp: step_def Let_def)
next
  case (Seq outputs)
  show ?thesis
  proof (cases "length outputs \<noteq> length (states l)")
    case True
    with assms(1) Seq show ?thesis by (auto simp: step_def Let_def)
  next
    case False
    obtain r1 w1 where um: "update_modalities A R (source_distribution_p S) df i k (td ! i)
        (t_sub A (td ! (i + 1)) (td ! i)) B outputs (enumerate 0 (modality_configs S)) l w = (r1, w1)"
      by fastforce
    from update_modalities_frame [OF um assms(2,3)]
    have f1: "take n (heap w1) = take n (heap w)" "length (heap w) \<le> length (heap w1)"
      "case r1 of Inl e \<Rightarrow> True | Inr l' \<Rightarrow> \<forall>a \<in> set (states l'). n \<le> a"
      by simp_all
    show ?thesis
    proof (cases r1)
      case (Inl e)
      with assms(1) Seq False um have "r = Inl e" and "w' = w1"
        by (simp_all add: step_def Let_def)
      with f1 show ?thesis by simp
    next
      case (Inr l1)
      define l2 where "l2 = l1\<lparr>steps_counter := steps_counter l1 + 1\<rparr>"
      have l2: "states l2 = states l1" by (simp add: l2_def)
      from f1 Inr have fresh1: "\<forall>a \<in> set (states l1). n \<le> a" by simp
      have n1: "n \<le> length (heap w1)" using assms(2) f1(2) by simp
      show ?thesis
      proof (cases ri)
        case False
        with assms(1) Seq \<open>\<not> length outputs \<noteq> length (states l)\<close> um Inr
        have "heap w' = heap w1" and "case r of Inl e \<Rightarrow> True | Inr l' \<Rightarrow> states l' = states l1"
          by (auto simp: step_def Let_def split: if_splits option.splits)
        with f1 fresh1 show ?thesis by (auto split: sum.splits)
      next
        case True
        obtain r2 w2 where rec: "record_intermediates A False B (t_add A (td ! i) (t_sub A (td ! (i + 1)) (td ! i)))
            grid [0..<length (states l2)] l2 w1 = (r2, w2)"
          by fastforce
        from record_intermediates_frame [OF rec n1]
        have f2: "take n (heap w2) = take n (heap w1)" "length (heap w1) \<le> length (heap w2)"
          "case r2 of Inl e \<Rightarrow> True | Inr l' \<Rightarrow> states l' = states l2"
          by simp_all
        from assms(1) Seq \<open>\<not> length outputs \<noteq> length (states l)\<close> um Inr True rec
        have "heap w' = heap w2"
          and "case r of Inl e \<Rightarrow> True
               | Inr l' \<Rightarrow> (case r2 of Inl e \<Rightarrow> False | Inr l3 \<Rightarrow> l' = l3)"
          unfolding step_def Let_def l2_def
          by (auto split: sum.splits if_splits option.splits)
        with f1 f2 fresh1 l2 show ?thesis by (auto split: sum.splits)
      qed
    qed
  qed
qed

lemma loop_frame:
  assumes "loop A R S df ri False vb B td k grid is l w = (r, w')"
    and "n \<le> length (heap w)" and "\<forall>a \<in> set (states l). n \<le> a"
  shows "take n (heap w') = take n (heap w) \<and> length (heap w) \<le> length (heap w')"
  using assms
proof (induction "is" arbitrary: l w)
  case Nil
  then show ?case by simp
next
  case (Cons i "is")
  obtain r1 w1 where st: "step A R S df ri False vb B td k grid i l w = (r1, w1)" by fastforce
  from step_frame [OF st Cons.prems(2,3)]
  have f: "take n (heap w1) = take n (heap w)" "length (heap w) \<le> length (heap w1)"
    "case r1 of Inl e \<Rightarrow> True | Inr l' \<Rightarrow> \<forall>a \<in> set (states l'). n \<le> a"
    by simp_all
  show ?case
  proof (cases r1)
    case (Inl e)
    with Cons.prems(1) st have "w' = w1" by simp
    with f show ?thesis by simp
  next
    case (Inr l1)
    with Cons.prems(1) st
    have rec: "loop A R S df ri False vb B td k grid is l1 w1 = (r, w')" by simp
    from f Inr have "\<forall>a \<in> set (states l1). n \<le> a" by simp
    from Cons.IH [OF rec _ this] f Cons.prems(2) show ?thesis by simp
  qed
qed

lemma sample_heap_cases:
  assumes "sample A tqdm_available R S x_init step_size df method time_grid ri eg vb w = (r, w')"
  shows "w' = w \<or>
         (\<exists>sts hp1 ims hp2.
            clone_all eg x_init (heap w) = (sts, hp1) \<and>
            (if ri then clone_all eg x_init hp1 else ([], hp1)) = (ims, hp2) \<and>
            (w' = w\<lparr>heap := hp2\<rparr> \<or>
             (\<exists>B td k grid is r' w1.
                heap w1 = hp2 \<and>
                loop A R S df ri eg vb B td k grid is
                  \<lparr>states = sts, intermediates = map (\<lambda>a. [a]) ims, steps_counter = 0\<rparr>
                  w1 = (r', w'))))"
proof (cases "\<not> list_all (\<lambda>a. a < length (heap w)) x_init
    \<or> length x_init \<noteq> length (modality_configs S) \<or> method \<noteq> ''euler''
    \<or> (case df of Const c \<Rightarrow> \<not> f_eq A c (f_zero A) | Callable f \<Rightarrow> True)
        \<and> source_distribution_p S = None
    \<or> x_init = []")
  case True
  with assms have "w' = w"
    by (auto simp: sample_def simp del: clone_all.simps split: if_splits)
  then show ?thesis by simp
next
  case False
  then obtain x0 xs where x: "x_init = x0 # xs" by (cases x_init) auto
  obtain sts hp1 where c1: "clone_all eg (x0 # xs) (heap w) = (sts, hp1)" by fastforce
  obtain ims hp2
    where c2: "(if ri then clone_all eg (x0 # xs) hp1 else ([], hp1)) = (ims, hp2)"
    by fastforce
  let ?l = "\<lparr>states = sts, intermediates = map (\<lambda>a. [a]) ims, steps_counter = 0\<rparr>"
  define wa where
    "wa = (if vb then w\<lparr>heap := hp2, display := (0, 0) # display w\<rparr> else w\<lparr>heap := hp2\<rparr>)"
  have hw: "heap wa = hp2" by (simp add: wa_def)
  from c1 c2 have c: "clone_all eg x_init (heap w) = (sts, hp1)"
    "(if ri then clone_all eg x_init hp1 else ([], hp1)) = (ims, hp2)"
    by (simp_all only: x)
  from assms False x c1 c2
  have "w' = w \<or> w' = w\<lparr>heap := hp2\<rparr>
        \<or> (\<exists>B td k grid is r'. loop A R S df ri eg vb B td k grid is ?l wa = (r', w'))"
    unfolding sample_def Let_def wa_def
    by (simp del: clone_all.simps split: if_splits sum.splits prod.splits) blast+
  then show ?thesis
  proof (elim disjE exE)
    assume "w' = w"
    then show ?thesis by simp
  next
    assume "w' = w\<lparr>heap := hp2\<rparr>"
    with c show ?thesis by blast
  next
    fix B td k grid "is" r'
    assume "loop A R S df ri eg vb B td k grid is ?l wa = (r', w')"
    with hw c show ?thesis by blast
  qed
qed

text \<open>
  C10. With \<^verbatim>\<open>enable_grad=False\<close>, whether \<open>sample\<close> returns or raises, every tensor
  that was on the heap before the call, and so every tensor of \<open>x_init\<close>, has its old
  contents afterwards: the loop works on clones.
\<close>

theorem sample_leaves_x_init:
  assumes s: "sample A tqdm_available R S x_init step_size df method time_grid
             return_intermediates False verbose w = (r, w')"
    and a: "a < length (heap w)"
  shows "a < length (heap w') \<and> heap w' ! a = heap w ! a"
proof -
  let ?n = "length (heap w)"
  have "take ?n (heap w') = take ?n (heap w) \<and> ?n \<le> length (heap w')"
    using sample_heap_cases [OF s]
  proof (elim disjE exE conjE)
    assume "w' = w"
    then show ?thesis by simp
  next
    fix sts hp1 ims hp2
    assume c1: "clone_all False x_init (heap w) = (sts, hp1)"
      and c2: "(if return_intermediates then clone_all False x_init hp1 else ([], hp1)) = (ims, hp2)"
    from clone_all_frame [OF c1, of ?n]
    have f1: "take ?n hp1 = heap w" "?n \<le> length hp1" "\<forall>a \<in> set sts. ?n \<le> a"
      by simp_all
    have f2: "take ?n hp2 = heap w \<and> ?n \<le> length hp2"
    proof (cases return_intermediates)
      case True
      with c2 have "clone_all False x_init hp1 = (ims, hp2)" by simp
      from clone_all_frame [OF this, of ?n] f1 show ?thesis by simp
    next
      case False
      with c2 f1 show ?thesis by simp
    qed
    {
      assume "w' = w\<lparr>heap := hp2\<rparr>"
      with f2 show ?thesis by simp
    next
      fix B td k grid "is" r' w1
      assume h: "heap w1 = hp2"
        and l: "loop A R S df return_intermediates False verbose B td k grid is
                  \<lparr>states = sts, intermediates = map (\<lambda>a. [a]) ims, steps_counter = 0\<rparr>
                  w1 = (r', w')"
      from loop_frame [OF l, of ?n] f1 f2 h show ?thesis by simp
    }
  qed
  then have t: "take ?n (heap w') = heap w" and le: "?n \<le> length (heap w')" by simp_all
  from a le have "a < length (heap w')" by simp
  moreover from a have "heap w' ! a = take ?n (heap w') ! a" by simp
  ultimately show ?thesis using t by simp
qed

text \<open>
  In exact arithmetic, a discrete modality whose first step jumps from class 0 to class 1
  by a masked write: the write lands in the clone (address 1), the caller's tensor
  (address 0) keeps class 0.
\<close>

theorem sample_leaves_x_init_witness:
  "sample exact False \<lparr>multinomial = (\<lambda>p g. (1, g)), uniform = (\<lambda>g. (0, g))\<rparr>
     \<lparr>model = (\<lambda>xs t. Seq [Float2 2 [[0, 0]]]), modality_configs = [Discrete (\<lambda>t. (t, 1))],
      source_distribution_p = None\<rparr>
     [0] None (Const 0) ''euler'' [0, 1 / 2, 1] False False False
     \<lparr>heap = [Long [0]], gen = (), display = []\<rparr>
   = (Inr (Final [2]), \<lparr>heap = [Long [0], Long [1], Long [1]], gen = (), display = []\<rparr>)
   \<and> (0::nat) < length (heap \<lparr>heap = [Long [0]], gen = (), display = []\<rparr>)
   \<and> heap \<lparr>heap = [Long [0], Long [1], Long [1]], gen = (), display = []\<rparr> ! 0 = Long [0]"
proof -
  have 1: "sample exact False \<lparr>multinomial = (\<lambda>p g. (1, g)), uniform = (\<lambda>g. (0, g))\<rparr>
     \<lparr>model = (\<lambda>xs t. Seq [Float2 2 [[0, 0]]]), modality_configs = [Discrete (\<lambda>t. (t, 1))],
      source_distribution_p = None\<rparr>
     [0] None (Const 0) ''euler'' [0, 1 / 2, 1] False False False
     \<lparr>heap = [Long [0]], gen = (), display = []\<rparr>
   = (Inr (Final [2]), \<lparr>heap = [Long [0], Long [1], Long [1]], gen = (), display = []\<rparr>)"
    by (simp add: sample_def discretize_def batch_size_def step_def discrete_step_def
        jump_rates_def compute_u_def zero_self_rate_def one_hot_def positive_coefficient_def
        div_free_value_def of_bit_def apply_update_def values_of_def upt_rec Let_def
        enumerate_eq_zip exact_def)
  have 2: "(0::nat) < length (heap \<lparr>heap = [Long [0]], gen = (), display = []\<rparr>)" by simp
  from sample_leaves_x_init [OF 1 2] 1 2 show ?thesis by simp
qed

text \<open>
  The same call with \<^verbatim>\<open>enable_grad=True\<close> works on the caller's tensor itself, and
  the masked write changes it.
\<close>

lemma sample_enable_grad_aliases:
  "sample exact False \<lparr>multinomial = (\<lambda>p g. (1, g)), uniform = (\<lambda>g. (0, g))\<rparr>
     \<lparr>model = (\<lambda>xs t. Seq [Float2 2 [[0, 0]]]), modality_configs = [Discrete (\<lambda>t. (t, 1))],
      source_distribution_p = None\<rparr>
     [0] None (Const 0) ''euler'' [0, 1 / 2, 1] False True False
     \<lparr>heap = [Long [0]], gen = (), display = []\<rparr>
   = (Inr (Final [1]), \<lparr>heap = [Long [1], Long [1]], gen = (), display = []\<rparr>)"
  by (simp add: sample_def discretize_def batch_size_def step_def discrete_step_def
      jump_rates_def compute_u_def zero_self_rate_def one_hot_def positive_coefficient_def
      div_free_value_def of_bit_def apply_update_def values_of_def upt_rec Let_def
      enumerate_eq_zip exact_def)

section \<open>The continuous step\<close>

lemma step_single_continuous:
  assumes "modality_configs S = [Continuous]" and "\<And>xs t. model S xs t = Seq [Float v]"
    and "states l = [a]" and "heap w ! a = Float y" and "length y = length v"
  shows "step A R S df False eg False B td n grid i l w =
           (Inr (l\<lparr>states := [length (heap w)], steps_counter := steps_counter l + 1\<rparr>),
            w\<lparr>heap := heap w
                 @ [Float (map2 (\<lambda>x u. t_add A x (t_mul A (t_sub A (td ! (i + 1)) (td ! i)) u))
                             y v)]\<rparr>)"
  using assms
  by (simp add: step_def Let_def continuous_step_def apply_update_def values_of_def)

lemma loop_single_continuous:
  assumes "modality_configs S = [Continuous]" and "\<And>xs t. model S xs t = Seq [Float v]"
    and "states l = [a]" and "heap w ! a = Float y" and "length y = length v"
  shows "\<exists>l' w' a'. loop A R S df False eg False B td n grid [k..<k + m] l w = (Inr l', w')
           \<and> states l' = [a']
           \<and> heap w' ! a' =
               Float (foldl (\<lambda>xs i. map2 (\<lambda>x u. t_add A x
                                              (t_mul A (t_sub A (td ! (i + 1)) (td ! i)) u)) xs v)
                        y [k..<k + m])"
  using assms(3-5)
proof (induction m arbitrary: k l w a y)
  case 0
  then show ?case by simp
next
  case (Suc m)
  let ?f = "\<lambda>xs i. map2 (\<lambda>x u. t_add A x (t_mul A (t_sub A (td ! (i + 1)) (td ! i)) u)) xs v"
  define l1 where "l1 = l\<lparr>states := [length (heap w)], steps_counter := steps_counter l + 1\<rparr>"
  define w1 where "w1 = w\<lparr>heap := heap w @ [Float (?f y k)]\<rparr>"
  have st: "step A R S df False eg False B td n grid k l w = (Inr l1, w1)"
    unfolding l1_def w1_def
    by (rule step_single_continuous [OF assms(1,2) Suc.prems])
  have 1: "states l1 = [length (heap w)]" by (simp add: l1_def)
  have 2: "heap w1 ! length (heap w) = Float (?f y k)" by (simp add: w1_def)
  have 3: "length (?f y k) = length v" using Suc.prems(3) by simp
  from Suc.IH [OF 1 2 3, of "Suc k"] obtain l' w' a'
    where lp: "loop A R S df False eg False B td n grid [Suc k..<Suc k + m] l1 w1 = (Inr l', w')"
      and s: "states l' = [a']"
      and h: "heap w' ! a' = Float (foldl ?f (?f y k) [Suc k..<Suc k + m])"
    by blast
  have upt: "[k..<k + Suc m] = k # [Suc k..<Suc k + m]" by (simp add: upt_rec)
  have "loop A R S df False eg False B td n grid [k..<k + Suc m] l w = (Inr l', w')"
    by (simp only: upt loop.simps st lp prod.case sum.case)
  moreover have "foldl ?f (?f y k) [Suc k..<Suc k + m] = foldl ?f y [k..<k + Suc m]"
    by (simp only: upt foldl_Cons)
  ultimately show ?case using s h by auto
qed

lemma sample_constant_velocity_fold:
  assumes cfg: "modality_configs S = [Continuous]"
    and mdl: "\<And>xs t. model S xs t = Seq [Float v]"
    and a: "a < length (heap w)" "heap w ! a = Float x0" and len: "length x0 = length v"
    and dfz: "(\<exists>c. df = Const c \<and> f_eq A c (f_zero A)) \<or> source_distribution_p S \<noteq> None"
    and d: "discretize A time_grid step_size = Inr d"
  shows "\<exists>a' w'. sample A tqdm_available R S [a] step_size df ''euler'' time_grid False
                    enable_grad False w = (Inr (Final [a']), w')
                 \<and> heap w' ! a' =
                     Float (foldl (\<lambda>xs i. map2 (\<lambda>x u. t_add A x
                              (t_mul A (t_sub A (t_discretization d ! (i + 1))
                                          (t_discretization d ! i)) u)) xs v)
                              x0 [0..<nat (n_steps d)])"
proof -
  let ?f = "\<lambda>xs i. map2 (\<lambda>x u. t_add A x
              (t_mul A (t_sub A (t_discretization d ! (i + 1)) (t_discretization d ! i)) u)) xs v"
  obtain sts hp1 where cl: "clone_all enable_grad [a] (heap w) = (sts, hp1)" by fastforce
  then obtain b where sts: "sts = [b]" and b: "hp1 ! b = Float x0"
    using a by (cases enable_grad) (auto simp: nth_append)
  define l where
    "l = \<lparr>states = sts, intermediates = map (\<lambda>a. [a]) ([]::nat list), steps_counter = 0\<rparr>"
  define w1 where "w1 = w\<lparr>heap := hp1\<rparr>"
  have "states l = [b]" and "heap w1 ! b = Float x0"
    using sts b by (simp_all add: l_def w1_def)
  from loop_single_continuous [OF cfg mdl this len, of A R df enable_grad
      "batch_size (heap w ! a)" "t_discretization d" "n_steps d" time_grid 0 "nat (n_steps d)"]
  obtain l' w' a' where lp: "loop A R S df False enable_grad False (batch_size (heap w ! a))
        (t_discretization d) (n_steps d) time_grid [0..<nat (n_steps d)] l w1 = (Inr l', w')"
    and s: "states l' = [a']"
    and h: "heap w' ! a' = Float (foldl ?f x0 [0..<nat (n_steps d)])"
    by auto
  have "sample A tqdm_available R S [a] step_size df ''euler'' time_grid False enable_grad
          False w = (Inr (Final [a']), w')"
    using cfg a(1) dfz d cl lp s
    by (auto simp add: sample_def Let_def l_def w1_def simp del: clone_all.simps)
  with h show ?thesis by auto
qed

text \<open>
  C8 (as amended). A continuous step is \<open>current + h * velocity\<close> in float32, nothing
  else, where \<open>h\<close> is the float32 difference of two consecutive points of the
  discretization. So for one continuous modality whose model always returns the velocity
  \<open>v\<close>, \<open>sample\<close> returns the initial state with these \<open>n_steps\<close> steps applied in order,
  each with its own rounding. This holds in every arithmetic, on every time grid and for
  every step size that has a discretization.
\<close>

theorem sample_constant_velocity:
  assumes cfg: "modality_configs S = [Continuous]"
    and mdl: "\<And>xs t. model S xs t = Seq [Float v]"
    and a: "a < length (heap w)" "heap w ! a = Float x0" and len: "length x0 = length v"
    and dfz: "(\<exists>c. df = Const c \<and> f_eq A c (f_zero A)) \<or> source_distribution_p S \<noteq> None"
    and d: "discretize A time_grid step_size = Inr d"
  shows "continuous_step A h (Float v) (Float x0)
           = Inr (Rebind (Float (map2 (\<lambda>x u. t_add A x (t_mul A h u)) x0 v)))
         \<and> (\<exists>a' w'. sample A tqdm_available R S [a] step_size df ''euler'' time_grid False
                       enable_grad False w = (Inr (Final [a']), w')
                    \<and> heap w' ! a' =
                        Float (foldl (\<lambda>xs i. map2 (\<lambda>x u. t_add A x
                                 (t_mul A (t_sub A (t_discretization d ! (i + 1))
                                             (t_discretization d ! i)) u)) xs v)
                                 x0 [0..<nat (n_steps d)]))"
proof
  show "continuous_step A h (Float v) (Float x0)
          = Inr (Rebind (Float (map2 (\<lambda>x u. t_add A x (t_mul A h u)) x0 v)))"
    using len by (simp add: continuous_step_def)
next
  show "\<exists>a' w'. sample A tqdm_available R S [a] step_size df ''euler'' time_grid False
                       enable_grad False w = (Inr (Final [a']), w')
                    \<and> heap w' ! a' =
                        Float (foldl (\<lambda>xs i. map2 (\<lambda>x u. t_add A x
                                 (t_mul A (t_sub A (t_discretization d ! (i + 1))
                                             (t_discretization d ! i)) u)) xs v)
                                 x0 [0..<nat (n_steps d)])"
    by (rule sample_constant_velocity_fold [OF cfg mdl a len dfz d])
qed

text \<open>
  In IEEE arithmetic: \<open>x0 = [0]\<close>, velocity \<open>[2]\<close>, step size \<open>1/2\<close> on the grid \<open>[0, 1]\<close>.
  Nothing is rounded, and the two steps give \<open>[2]\<close>.
\<close>

theorem sample_constant_velocity_witness:
  "discretize ieee [Fin 0, Fin 1] (Some (Fin (1 / 2)))
     = Inr \<lparr>t_discretization = [Fin 0, Fin (1 / 2), Fin 1], n_steps = 2, t_final = Some (Fin 1)\<rparr>
   \<and> (\<exists>a' w'. sample ieee False \<lparr>multinomial = (\<lambda>p g. (0, g)), uniform = (\<lambda>g. (Fin 0, g))\<rparr>
                 \<lparr>model = (\<lambda>xs t. Seq [Float [Fin 2]]), modality_configs = [Continuous],
                  source_distribution_p = None\<rparr>
                 [0] (Some (Fin (1 / 2))) (Const (Fin 0)) ''euler'' [Fin 0, Fin 1] False False
                 False \<lparr>heap = [Float [Fin 0]], gen = (), display = []\<rparr> = (Inr (Final [a']), w')
               \<and> heap w' ! a' = Float [Fin 2])"
proof -
  let ?S = "\<lparr>model = (\<lambda>xs t. Seq [Float [Fin 2]]), modality_configs = [Continuous],
             source_distribution_p = None\<rparr>"
  let ?w = "\<lparr>heap = [Float [Fin 0]], gen = (), display = []\<rparr> :: (fl, unit) world"
  let ?d = "\<lparr>t_discretization = [Fin 0, Fin (1 / 2), Fin 1], n_steps = 2,
             t_final = Some (Fin 1)\<rparr>"
  have 1: "modality_configs ?S = [Continuous]" by simp
  have 2: "\<And>xs t. model ?S xs t = Seq [Float [Fin 2]]" by simp
  have 3: "0 < length (heap ?w)" by simp
  have 4: "heap ?w ! 0 = Float [Fin 0]" by simp
  have 5: "length [Fin 0] = length [Fin 2]" by simp
  have 6: "(\<exists>c. Const (Fin 0) = Const c \<and> f_eq ieee c (f_zero ieee))
           \<or> source_distribution_p ?S \<noteq> None"
    by (simp add: ieee_ops)
  have 7: "discretize ieee [Fin 0, Fin 1] (Some (Fin (1 / 2))) = Inr ?d"
    by (simp add: discretize_def upt_rec Let_def ieee_ops rounding)
  have 8: "foldl (\<lambda>xs i. map2 (\<lambda>x u. t_add ieee x
              (t_mul ieee (t_sub ieee (t_discretization ?d ! (i + 1)) (t_discretization ?d ! i)) u))
              xs [Fin 2]) [Fin 0] [0..<nat (n_steps ?d)] = [Fin 2]"
    by (simp add: upt_rec ieee_ops rounding)
  from sample_constant_velocity [OF 1 2 3 4 5 6 7, of "Fin 0" False
      "\<lparr>multinomial = (\<lambda>p g. (0, g)), uniform = (\<lambda>g. (Fin 0, g))\<rparr>" False] 7 8
  show ?thesis by simp
qed

text \<open>
  C8 as stated fails: the increments do not telescope in floating point. In IEEE
  arithmetic, \<open>x0 = [1]\<close>, velocity \<open>[1]\<close> and the step size \<^verbatim>\<open>0.2\<close>, that is the binary64
  number \<open>3602879701896397 / 2^54\<close>, on the grid \<open>[0, 1]\<close> give five steps, and the final
  state is \<open>2 + 2^-22\<close>, not \<open>x0 + v = 2\<close>.
\<close>

theorem sample_constant_velocity_rounding:
  "sample ieee False \<lparr>multinomial = (\<lambda>p g. (0, g)), uniform = (\<lambda>g. (Fin 0, g))\<rparr>
     \<lparr>model = (\<lambda>xs t. Seq [Float [Fin 1]]), modality_configs = [Continuous],
      source_distribution_p = None\<rparr>
     [0] (Some (Fin (3602879701896397 / 18014398509481984))) (Const (Fin 0)) ''euler''
     [Fin 0, Fin 1] False False False
     \<lparr>heap = [Float [Fin 1]], gen = (), display = []\<rparr>
   = (Inr (Final [6]),
      \<lparr>heap = [Float [Fin 1], Float [Fin 1], Float [Fin (5033165 / 4194304)],
               Float [Fin (2936013 / 2097152)], Float [Fin (6710887 / 4194304)],
               Float [Fin (1887437 / 1048576)], Float [Fin (8388609 / 4194304)]],
        gen = (), display = []\<rparr>)
   \<and> map2 (t_add ieee) [Fin 1] [Fin 1] = [Fin 2]
   \<and> Float [Fin (8388609 / 4194304)] \<noteq> Float [Fin 2]"
  by (simp add: sample_def discretize_def batch_size_def step_def continuous_step_def
      apply_update_def values_of_def upt_rec Let_def enumerate_eq_zip ieee_ops rounding)

text \<open>
  In exact arithmetic the increments do telescope: over a time grid from 0 to 1 the final
  state is \<open>x0 + v\<close>, with the caller's own grid (\<^verbatim>\<open>step_size=None\<close>) however it divides
  the interval, and with every step size \<open>0 < s < 1\<close>.
\<close>

lemma map2_euler_zero: "length y = length v \<Longrightarrow> map2 (\<lambda>x u. x) y v = y"
  by (rule nth_equalityI) simp_all

lemma map2_euler_add:
  "length y = length v \<Longrightarrow>
   map2 (\<lambda>x u. x + c * u) (map2 (\<lambda>x u. x + d * u) y v) v
     = map2 (\<lambda>x u. x + (d + c) * (u::real)) y v"
  by (rule nth_equalityI) (simp_all add: algebra_simps)

lemma foldl_euler_real:
  assumes "length y = length v"
  shows "foldl (\<lambda>xs i. map2 (\<lambda>x u. x + (td ! Suc i - td ! i) * (u::real)) xs v) y [k..<k + m]
         = map2 (\<lambda>x u. x + (td ! (k + m) - td ! k) * u) y v"
proof (induction m)
  case 0
  from assms show ?case by (simp add: map2_euler_zero)
next
  case (Suc m)
  have "foldl (\<lambda>xs i. map2 (\<lambda>x u. x + (td ! Suc i - td ! i) * u) xs v) y [k..<k + Suc m]
        = map2 (\<lambda>x u. x + (td ! Suc (k + m) - td ! (k + m)) * u)
            (map2 (\<lambda>x u. x + (td ! (k + m) - td ! k) * u) y v) v"
    by (simp add: Suc)
  also have "\<dots> = map2 (\<lambda>x u. x + (td ! (k + Suc m) - td ! k) * u) y v"
    using assms by (simp add: map2_euler_add)
  finally show ?case .
qed

lemma foldl_euler_exact:
  assumes "length y = length v"
  shows "foldl (\<lambda>xs i. map2 (\<lambda>x u. t_add exact x
                            (t_mul exact (t_sub exact (td ! (i + 1)) (td ! i)) u)) xs v)
           y [k..<k + m]
         = map2 (\<lambda>x u. x + (td ! (k + m) - td ! k) * u) y v"
  using foldl_euler_real [OF assms, of td k m] by (simp add: exact_def)

lemma discretize_unit_interval:
  assumes "time_grid \<noteq> []" and "hd time_grid = 0" and "last time_grid = 1"
    and "step_size = None \<or> (\<exists>s. step_size = Some s \<and> 0 < s \<and> s < 1)"
  shows "\<exists>d. discretize exact time_grid step_size = Inr d
           \<and> t_discretization d ! 0 = 0 \<and> t_discretization d ! nat (n_steps d) = 1"
proof (cases step_size)
  case None
  from assms(1) have "time_grid ! 0 = hd time_grid" by (simp add: hd_conv_nth)
  moreover from assms(1) have "time_grid ! (length time_grid - 1) = last time_grid"
    by (simp add: last_conv_nth)
  moreover have "nat (int (length time_grid) - 1) = length time_grid - 1" by simp
  ultimately show ?thesis using None assms(2,3) by (simp add: discretize_def)
next
  case (Some s)
  with assms(4) have s: "0 < s" "s < 1" by simp_all
  let ?n = "\<lceil>1 / s\<rceil>"
  from s have n: "1 < ?n" by (simp add: less_ceiling_iff)
  let ?td = "map (\<lambda>i. s * real i) [0..<nat ?n] @ [1]"
  from n s have "?td ! 0 = 0" by (simp add: nth_append)
  moreover have "?td ! nat ?n = 1" by (simp add: nth_append)
  ultimately show ?thesis using Some assms(1-3) s
    by (simp add: discretize_def Let_def exact_def)
qed

lemma sample_constant_velocity_exact:
  assumes cfg: "modality_configs S = [Continuous]"
    and mdl: "\<And>xs t. model S xs t = Seq [Float v]"
    and a: "a < length (heap w)" "heap w ! a = Float x0" and len: "length x0 = length v"
    and dfz: "df = Const 0 \<or> source_distribution_p S \<noteq> None"
    and tg: "time_grid \<noteq> []" "hd time_grid = 0" "last time_grid = 1"
    and ss: "step_size = None \<or> (\<exists>s. step_size = Some s \<and> 0 < s \<and> s < 1)"
  shows "\<exists>a' w'. sample exact tqdm_available R S [a] step_size df ''euler'' time_grid False
                    enable_grad False w = (Inr (Final [a']), w')
                 \<and> heap w' ! a' = Float (map2 (+) x0 v)"
proof -
  from discretize_unit_interval [OF tg ss] obtain d
    where d: "discretize exact time_grid step_size = Inr d"
      and d0: "t_discretization d ! 0 = 0" and d1: "t_discretization d ! nat (n_steps d) = 1"
    by blast
  from dfz have dfz': "(\<exists>c. df = Const c \<and> f_eq exact c (f_zero exact))
      \<or> source_distribution_p S \<noteq> None"
    by (auto simp: exact_def)
  from sample_constant_velocity_fold [OF cfg mdl a len dfz' d] obtain a' w'
    where "sample exact tqdm_available R S [a] step_size df ''euler'' time_grid False
             enable_grad False w = (Inr (Final [a']), w')"
      and "heap w' ! a' =
             Float (foldl (\<lambda>xs i. map2 (\<lambda>x u. t_add exact x
                      (t_mul exact (t_sub exact (t_discretization d ! (i + 1))
                                      (t_discretization d ! i)) u)) xs v)
                      x0 [0..<nat (n_steps d)])"
    by blast
  moreover have "foldl (\<lambda>xs i. map2 (\<lambda>x u. t_add exact x
                      (t_mul exact (t_sub exact (t_discretization d ! (i + 1))
                                      (t_discretization d ! i)) u)) xs v)
                      x0 [0..<nat (n_steps d)] = map2 (+) x0 v"
    using foldl_euler_exact [OF len, of "t_discretization d" 0 "nat (n_steps d)"] d0 d1
    by simp
  ultimately show ?thesis by auto
qed

section \<open>Order of the returned trajectory\<close>

text \<open>
  C1. In IEEE arithmetic: one continuous modality with \<open>x0 = [0]\<close> and constant velocity
  \<open>[1]\<close>, so that the state at time \<open>t\<close> is \<open>[t]\<close>; step size \<open>1/4\<close>; the caller's grid is
  \<open>[0, 3/4, 1/4, 1/2, 1]\<close> (nothing is rounded). Line 311 indexes the recorded snapshots
  (which are in ascending time) with \<^verbatim>\<open>argsort(time_grid) = [0, 2, 3, 1, 4]\<close> and returns
  the snapshots of the times \<open>[0, 1/2, 3/4, 1/4, 1]\<close>, which is not the caller's order.
\<close>

theorem sample_trajectory_order:
  "sample ieee False \<lparr>multinomial = (\<lambda>p g. (0, g)), uniform = (\<lambda>g. (Fin 0, g))\<rparr>
     \<lparr>model = (\<lambda>xs t. Seq [Float [Fin 1]]), modality_configs = [Continuous],
      source_distribution_p = None\<rparr>
     [0] (Some (Fin (1 / 4))) (Const (Fin 0)) ''euler''
     [Fin 0, Fin (3 / 4), Fin (1 / 4), Fin (1 / 2), Fin 1] True False False
     \<lparr>heap = [Float [Fin 0]], gen = (), display = []\<rparr>
   = (Inr (Trajectories [[2, 6, 8, 4, 10]]),
      \<lparr>heap = [Float [Fin 0], Float [Fin 0], Float [Fin 0], Float [Fin (1 / 4)],
               Float [Fin (1 / 4)], Float [Fin (1 / 2)], Float [Fin (1 / 2)],
               Float [Fin (3 / 4)], Float [Fin (3 / 4)], Float [Fin 1], Float [Fin 1]],
        gen = (), display = []\<rparr>)
   \<and> values_of [Float [Fin 0], Float [Fin 0], Float [Fin 0], Float [Fin (1 / 4)],
                Float [Fin (1 / 4)], Float [Fin (1 / 2)], Float [Fin (1 / 2)],
                Float [Fin (3 / 4)], Float [Fin (3 / 4)], Float [Fin 1], Float [Fin 1]]
        [2, 6, 8, 4, 10]
      = map (\<lambda>t. Float [Fin t]) [0, 1 / 2, 3 / 4, 1 / 4, 1]
   \<and> map (\<lambda>t. Float [Fin t]) [0, 1 / 2, 3 / 4, 1 / 4, 1]
      \<noteq> map (\<lambda>t. Float [Fin t]) [0, 3 / 4, 1 / 4, 1 / 2, 1]"
  by (simp add: sample_def discretize_def get_nearest_times_def argsort_def batch_size_def
      step_def continuous_step_def apply_update_def contains_def values_of_def
      upt_rec Let_def enumerate_eq_zip ieee_ops rounding)

section \<open>The progress display\<close>

text \<open>
  With a numeric step size and tqdm installed, a call with \<^verbatim>\<open>verbose=True\<close> ends as the
  same call with \<^verbatim>\<open>verbose=False\<close> does, with the same result and the same heap and
  generator; only the display differs. This is shown for a batch that is not empty and
  an arithmetic in which every position shown is an integer (no infinity, no NaN).
\<close>


lemma update_modalities_display:
  assumes "update_modalities A R p df i n t h B outputs cs l w = (r, w')"
  shows "update_modalities A R p df i n t h B outputs cs l (w\<lparr>display := d\<rparr>)
           = (r, w'\<lparr>display := d\<rparr>)"
  using assms
proof (induction cs arbitrary: l w)
  case Nil
  then show ?case by auto
next
  case (Cons c cs)
  obtain idx cfg where c: "c = (idx, cfg)" by (cases c)
  show ?case
  proof (cases "idx < length outputs \<and> idx < length (states l)")
    case False
    with Cons.prems c show ?thesis by auto
  next
    case True
    show ?thesis
    proof (cases cfg)
      case Continuous
      show ?thesis
      proof (cases "continuous_step A h (outputs ! idx) (heap w ! (states l ! idx))")
        case (Inl e)
        with Cons.prems c True Continuous show ?thesis by auto
      next
        case (Inr upd)
        obtain l1 w1 where a: "apply_update idx upd l w = (l1, w1)" by fastforce
        then have a': "apply_update idx upd l (w\<lparr>display := d\<rparr>) = (l1, w1\<lparr>display := d\<rparr>)"
          by (auto simp: apply_update_def split: update.splits)
        from Cons.prems(1) c True Continuous Inr a
        have rec: "update_modalities A R p df i n t h B outputs cs l1 w1 = (r, w')" by simp
        from Cons.IH [OF rec] c True Continuous Inr a' show ?thesis by simp
      qed
    next
      case (Discrete sch)
      obtain res g1 where ds: "discrete_step A R sch p df i n t h B (outputs ! idx)
          (heap w ! (states l ! idx)) (gen w) = (res, g1)" by fastforce
      show ?thesis
      proof (cases res)
        case (Inl e)
        with Cons.prems c True Discrete ds show ?thesis by auto
      next
        case (Inr upd)
        obtain l1 w1 where a: "apply_update idx upd l (w\<lparr>gen := g1\<rparr>) = (l1, w1)" by fastforce
        then have a': "apply_update idx upd l (w\<lparr>display := d, gen := g1\<rparr>)
                         = (l1, w1\<lparr>display := d\<rparr>)"
          by (auto simp: apply_update_def split: update.splits)
        from Cons.prems(1) c True Discrete Inr ds a
        have rec: "update_modalities A R p df i n t h B outputs cs l1 w1 = (r, w')" by simp
        from Cons.IH [OF rec] c True Discrete Inr ds a' show ?thesis by simp
      qed
    qed
  qed
qed

lemma record_intermediates_display:
  assumes "record_intermediates A eg B t grid idxs l w = (r, w')"
  shows "record_intermediates A eg B t grid idxs l (w\<lparr>display := d\<rparr>) = (r, w'\<lparr>display := d\<rparr>)"
  using assms
proof (induction idxs arbitrary: l w)
  case Nil
  then show ?case by auto
next
  case (Cons idx idxs)
  show ?case
  proof (cases "contains A B t grid")
    case (Inl e)
    with Cons.prems show ?thesis by auto
  next
    case (Inr b)
    show ?thesis
    proof (cases "b \<and> idx < length (intermediates l)")
      case False
      with Cons.prems Inr Cons.IH [of l w] show ?thesis by (auto simp: Let_def)
    next
      case True
      show ?thesis
      proof (cases eg)
        case eg: True
        define l1 where "l1 = l\<lparr>intermediates :=
              (intermediates l)[idx := intermediates l ! idx @ [states l ! idx]]\<rparr>"
        from Cons.prems Inr True eg
        have "record_intermediates A eg B t grid idxs l1 w = (r, w')"
          by (simp add: Let_def l1_def)
        from Cons.IH [OF this] Inr True eg show ?thesis by (simp add: Let_def l1_def)
      next
        case eg: False
        define l1 where "l1 = l\<lparr>intermediates :=
              (intermediates l)[idx := intermediates l ! idx @ [length (heap w)]]\<rparr>"
        define w1 where "w1 = w\<lparr>heap := heap w @ [heap w ! (states l ! idx)]\<rparr>"
        have w1: "w1\<lparr>display := d\<rparr> =
                  w\<lparr>display := d, heap := heap w @ [heap w ! (states l ! idx)]\<rparr>"
          by (simp add: w1_def)
        from Cons.prems Inr True eg
        have "record_intermediates A eg B t grid idxs l1 w1 = (r, w')"
          by (simp add: Let_def l1_def w1_def)
        from Cons.IH [OF this] Inr True eg show ?thesis by (simp add: Let_def l1_def w1)
      qed
    qed
  qed
qed



lemma clone_all_length:
  "clone_all eg xs hp = (as, hp1) \<Longrightarrow> length as = length xs"
  by (induction xs arbitrary: hp as) (auto split: if_splits prod.splits)

lemma apply_update_length:
  "apply_update idx upd l w = (l1, w1) \<Longrightarrow> length (states l1) = length (states l)"
  by (cases upd) (auto simp: apply_update_def)

lemma update_modalities_length:
  assumes "update_modalities A R p df i n t h B outputs cs l w = (Inr l', w')"
  shows "length (states l') = length (states l)"
  using assms
proof (induction cs arbitrary: l w)
  case Nil
  then show ?case by simp
next
  case (Cons x cs)
  obtain j cfg where x: "x = (j, cfg)" by (cases x)
  from Cons.prems x have rng: "j < length outputs" "j < length (states l)"
    by (auto split: if_splits)
  have "\<exists>upd wa l1 w1. apply_update j upd l wa = (l1, w1)
          \<and> update_modalities A R p df i n t h B outputs cs l1 w1 = (Inr l', w')"
  proof (cases cfg)
    case Continuous
    with Cons.prems x rng show ?thesis
      by (auto simp: Let_def split: sum.splits prod.splits)
  next
    case (Discrete sch)
    with Cons.prems x rng show ?thesis
      by (auto simp: Let_def split: sum.splits prod.splits)
  qed
  then obtain upd wa l1 w1 where a: "apply_update j upd l wa = (l1, w1)"
    and rec: "update_modalities A R p df i n t h B outputs cs l1 w1 = (Inr l', w')"
    by blast
  from Cons.IH [OF rec] apply_update_length [OF a] show ?case by simp
qed

lemma step_verbose:
  assumes st: "step A R S df ri eg False B td n grid i l w = (r, w')" and B: "B \<noteq> 0"
    and ne: "states l \<noteq> []" and pos: "\<And>x. t_long A x \<noteq> None"
  shows "(\<exists>d'. step A R S df ri eg True B td n grid i l (w\<lparr>display := d\<rparr>)
                 = (r, w'\<lparr>display := d'\<rparr>))
         \<and> (case r of Inl e \<Rightarrow> True | Inr l' \<Rightarrow> states l' \<noteq> [])"
proof (cases "model S (values_of (heap w) (states l)) (td ! i)")
  case NonSeq
  with st show ?thesis by (auto simp: step_def Let_def)
next
  case (Seq outputs)
  show ?thesis
  proof (cases "length outputs \<noteq> length (states l)")
    case True
    with st Seq show ?thesis by (auto simp: step_def Let_def)
  next
    case False
    let ?t = "td ! i" and ?h = "t_sub A (td ! (i + 1)) (td ! i)"
    obtain r1 w1 where um: "update_modalities A R (source_distribution_p S) df i n ?t ?h B
        outputs (enumerate 0 (modality_configs S)) l w = (r1, w1)"
      by fastforce
    note um' = update_modalities_display [OF um, of d]
    show ?thesis
    proof (cases r1)
      case (Inl e)
      with st Seq False um have "r = Inl e" and "w' = w1"
        by (simp_all add: step_def Let_def)
      with Seq False um' Inl show ?thesis by (auto simp: step_def Let_def)
    next
      case (Inr l1)
      define l2 where "l2 = l1\<lparr>steps_counter := steps_counter l1 + 1\<rparr>"
      from update_modalities_length [of A R "source_distribution_p S" df i n ?t ?h B outputs
          "enumerate 0 (modality_configs S)" l w l1 w1] um Inr ne
      have ne2: "states l2 \<noteq> []" by (auto simp: l2_def)
      obtain k where k: "position A (length (states l2)) B (t_add A ?t ?h) n = Some k"
        using pos by (auto simp: position_def)
      show ?thesis
      proof (cases ri)
        case ri: False
        with st Seq False um Inr have "r = Inr l2" and "w' = w1"
          by (simp_all add: step_def Let_def l2_def)
        moreover from Seq False um' Inr ri B ne2 k
        have "step A R S df ri eg True B td n grid i l (w\<lparr>display := d\<rparr>)
                = (Inr l2, w1\<lparr>display := (k, steps_counter l2) # (k, steps_counter l2 - 1) # d\<rparr>)"
          by (simp add: step_def Let_def l2_def)
        ultimately show ?thesis using ne2 by auto
      next
        case ri: True
        obtain r2 w2 where rec: "record_intermediates A eg B (t_add A ?t ?h)
            grid [0..<length (states l2)] l2 w1 = (r2, w2)"
          by fastforce
        note rec' = record_intermediates_display [OF rec, of d]
        from st Seq False um Inr ri rec have r: "r = r2" and w: "w' = w2"
          by (auto simp: step_def Let_def l2_def split: sum.splits)
        show ?thesis
        proof (cases r2)
          case (Inl e)
          with Seq False um' Inr ri rec' r w show ?thesis
            by (auto simp: step_def Let_def l2_def)
        next
          case r2: (Inr l3)
          from record_intermediates_valid [OF rec] r2 have s3: "states l3 = states l2" by simp
          with ne2 have ne3: "states l3 \<noteq> []" by simp
          from Seq False um' Inr ri rec' r2 B ne3 k s3
          have "step A R S df ri eg True B td n grid i l (w\<lparr>display := d\<rparr>)
                  = (Inr l3, w2\<lparr>display := (k, steps_counter l3) # (k, steps_counter l3 - 1) # d\<rparr>)"
            by (simp add: step_def Let_def l2_def)
          with r w r2 ne3 show ?thesis by auto
        qed
      qed
    qed
  qed
qed

lemma loop_verbose:
  assumes "loop A R S df ri eg False B td n grid is l w = (r, w')" and "B \<noteq> 0"
    and "states l \<noteq> []" and pos: "\<And>x. t_long A x \<noteq> None"
  shows "\<exists>d'. loop A R S df ri eg True B td n grid is l (w\<lparr>display := d\<rparr>)
                = (r, w'\<lparr>display := d'\<rparr>)"
  using assms(1,3)
proof (induction "is" arbitrary: l w d)
  case Nil
  then show ?case by auto
next
  case (Cons i "is")
  obtain r1 w1 where st: "step A R S df ri eg False B td n grid i l w = (r1, w1)" by fastforce
  from step_verbose [OF st assms(2) Cons.prems(2) pos, of d] obtain d1
    where st': "step A R S df ri eg True B td n grid i l (w\<lparr>display := d\<rparr>)
                  = (r1, w1\<lparr>display := d1\<rparr>)"
      and ne: "case r1 of Inl e \<Rightarrow> True | Inr l' \<Rightarrow> states l' \<noteq> []"
    by blast
  show ?case
  proof (cases r1)
    case (Inl e)
    with Cons.prems st have "r = Inl e" and "w' = w1" by simp_all
    with st' Inl show ?thesis by auto
  next
    case (Inr l1)
    with Cons.prems st
    have "loop A R S df ri eg False B td n grid is l1 w1 = (r, w')" by simp
    moreover from ne Inr have "states l1 \<noteq> []" by simp
    ultimately show ?thesis using Cons.IH [of l1 w1 d1] st' Inr by simp
  qed
qed

lemma discretize_Some_t_final:
  "discretize A time_grid (Some s) = Inr d \<Longrightarrow> t_final d \<noteq> None"
  by (auto simp: discretize_def Let_def split: if_splits sum.splits)

lemma sample_verbose_step_size:
  assumes s: "sample A True R S x_init (Some s) df method time_grid ri eg False w = (r, w')"
    and B: "x_init \<noteq> [] \<longrightarrow> batch_size (heap w ! hd x_init) \<noteq> 0"
    and pos: "\<And>x. t_long A x \<noteq> None"
  shows "\<exists>d'. sample A True R S x_init (Some s) df method time_grid ri eg True w
                = (r, w'\<lparr>display := d'\<rparr>)"
proof -
  let ?early = "\<not> list_all (\<lambda>a. a < length (heap w)) x_init
      \<or> length x_init \<noteq> length (modality_configs S) \<or> method \<noteq> ''euler''
      \<or> (case df of Const c \<Rightarrow> \<not> f_eq A c (f_zero A) | Callable f \<Rightarrow> True)
          \<and> source_distribution_p S = None
      \<or> x_init = []"
  show ?thesis
  proof (cases ?early)
    case True
    with s have "(r, w') = sample A True R S x_init (Some s) df method time_grid ri eg True w"
      by (auto simp: sample_def simp del: clone_all.simps)
    then show ?thesis by (auto intro: exI [of _ "display w'"])
  next
    case False
    then obtain x0 xs where x: "x_init = x0 # xs" by (cases x_init) auto
    show ?thesis
    proof (cases "discretize A time_grid (Some s)")
      case (Inl e)
      with s False x
      have "(r, w') = sample A True R S x_init (Some s) df method time_grid ri eg True w"
        by (auto simp: sample_def Let_def simp del: clone_all.simps)
      then show ?thesis by (auto intro: exI [of _ "display w'"])
    next
      case (Inr d)
      from discretize_Some_t_final [OF Inr] obtain tfv where tf: "t_final d = Some tfv"
        by auto
      show ?thesis
      proof (cases "ri \<and> get_nearest_times A time_grid (t_discretization d) = Inl Unmodelled")
        case True
        with s False x Inr
        have "(r, w') = sample A True R S x_init (Some s) df method time_grid ri eg True w"
          by (auto simp: sample_def Let_def simp del: clone_all.simps)
        then show ?thesis by (auto intro: exI [of _ "display w'"])
      next
        case nt: False
        define og where "og = (if ri then (argsort A time_grid,
             (case get_nearest_times A time_grid (t_discretization d) of
                Inr g \<Rightarrow> g | Inl e \<Rightarrow> []))
           else ([], time_grid))"
        have og: "(if Some s \<noteq> None \<and> ri
                   then (case get_nearest_times A time_grid (t_discretization d) of
                           Inl e \<Rightarrow> Inl e
                         | Inr nearest_times \<Rightarrow> Inr (argsort A time_grid, nearest_times))
                   else Inr ([], time_grid)) = Inr og"
          using nt by (auto simp: og_def get_nearest_times_def split: list.splits)
        obtain order grid where ogp: "og = (order, grid)" by (cases og)
        obtain sts hp1 where c1: "clone_all eg (x0 # xs) (heap w) = (sts, hp1)" by fastforce
        obtain ims hp2
          where c2: "(if ri then clone_all eg (x0 # xs) hp1 else ([], hp1)) = (ims, hp2)"
          by fastforce
        define l where
          "l = \<lparr>states = sts, intermediates = map (\<lambda>a. [a]) ims, steps_counter = 0\<rparr>"
        define w1 where "w1 = w\<lparr>heap := hp2\<rparr>"
        from clone_all_length [OF c1] have ne: "states l \<noteq> []" by (auto simp: l_def)
        let ?B = "batch_size (heap w ! x0)"
        obtain r1 w2 where lp: "loop A R S df ri eg False ?B (t_discretization d) (n_steps d)
            grid [0..<nat (n_steps d)] l w1 = (r1, w2)" by fastforce
        from B x have "?B \<noteq> 0" by simp
        from loop_verbose [OF lp this ne pos, of "(0, 0) # display w1"] obtain d'
          where lp': "loop A R S df ri eg True ?B (t_discretization d) (n_steps d) grid
            [0..<nat (n_steps d)] l (w1\<lparr>display := (0, 0) # display w1\<rparr>)
              = (r1, w2\<lparr>display := d'\<rparr>)" by blast
        have unf: "\<And>vb. sample A True R S x_init (Some s) df method time_grid ri eg vb w =
            (case loop A R S df ri eg vb ?B (t_discretization d) (n_steps d) grid
                    [0..<nat (n_steps d)] l
                    (if vb then w1\<lparr>display := (0, 0) # display w1\<rparr> else w1) of
               (Inl e, w2) \<Rightarrow> (Inl e, w2)
             | (Inr l2, w2) \<Rightarrow>
                 if ri then (case reorder order (intermediates l2) of
                               Inl e \<Rightarrow> (Inl e, w2)
                             | Inr tr \<Rightarrow> (Inr (Trajectories tr), w2))
                 else (Inr (Final (states l2)), w2))"
          using False x Inr og ogp c1 c2 tf
          by (auto simp add: sample_def Let_def l_def w1_def simp del: clone_all.simps
              split: prod.splits sum.splits)
        from s lp show ?thesis
          by (simp only: unf lp' if_True if_False) (auto split: sum.splits if_splits)
      qed
    qed
  qed
qed

text \<open>
  Without a step size a call with \<^verbatim>\<open>verbose=True\<close> never returns a result.
\<close>

lemma sample_verbose_None_raises:
  "\<exists>e w'. sample A tqdm_available R S x_init None df method time_grid ri eg True w = (Inl e, w')"
  unfolding sample_def Let_def
  by (simp del: clone_all.simps add: discretize_def split: list.splits prod.splits)

text \<open>
  C3. In IEEE arithmetic: with \<^verbatim>\<open>step_size=None\<close> the local \<^verbatim>\<open>t_final\<close> is never
  assigned, and line 200 reads it to build the progress bar: with \<^verbatim>\<open>verbose=True\<close> (and
  tqdm installed) the call raises \<^verbatim>\<open>UnboundLocalError\<close> before the first step, where the
  same call with \<^verbatim>\<open>verbose=False\<close> returns the final state.
\<close>

theorem sample_verbose_without_step_size:
  "sample ieee True \<lparr>multinomial = (\<lambda>p g. (0, g)), uniform = (\<lambda>g. (Fin 0, g))\<rparr>
     \<lparr>model = (\<lambda>xs t. Seq [Float [Fin 1]]), modality_configs = [Continuous],
      source_distribution_p = None\<rparr>
     [0] None (Const (Fin 0)) ''euler'' [Fin 0, Fin 1] False False True
     \<lparr>heap = [Float [Fin 0]], gen = (), display = []\<rparr>
   = (Inl UnboundLocalError, \<lparr>heap = [Float [Fin 0], Float [Fin 0]], gen = (), display = []\<rparr>)
   \<and> sample ieee True \<lparr>multinomial = (\<lambda>p g. (0, g)), uniform = (\<lambda>g. (Fin 0, g))\<rparr>
       \<lparr>model = (\<lambda>xs t. Seq [Float [Fin 1]]), modality_configs = [Continuous],
        source_distribution_p = None\<rparr>
       [0] None (Const (Fin 0)) ''euler'' [Fin 0, Fin 1] False False False
       \<lparr>heap = [Float [Fin 0]], gen = (), display = []\<rparr>
     = (Inr (Final [2]),
        \<lparr>heap = [Float [Fin 0], Float [Fin 0], Float [Fin 1]], gen = (), display = []\<rparr>)"
  by (simp add: sample_def discretize_def batch_size_def step_def continuous_step_def
      apply_update_def values_of_def upt_rec Let_def enumerate_eq_zip ieee_ops rounding)

end
